theory Spec2Isabelle
  imports Main
begin

section \<open>Library functions used by the translator\<close>

text \<open>
  Go strings are byte sequences; they are modelled as \<open>string\<close> (lists of 8-bit
  characters). \<open>fmt.Sprintf\<close> with \<open>%s\<close> verbs only is list concatenation.
\<close>

text \<open>\<open>strings.HasPrefix\<close> and \<open>strings.TrimPrefix\<close>.\<close>

definition HasPrefix :: "string \<Rightarrow> string \<Rightarrow> bool" where
  "HasPrefix s p = (take (length p) s = p)"

definition TrimPrefix :: "string \<Rightarrow> string \<Rightarrow> string" where
  "TrimPrefix s p = (if HasPrefix s p then drop (length p) s else s)"

text \<open>\<open>strings.Join\<close>.\<close>

fun Join :: "string list \<Rightarrow> string \<Rightarrow> string" where
  "Join [] sep = []"
| "Join [x] sep = x"
| "Join (x # y # ys) sep = x @ sep @ Join (y # ys) sep"

text \<open>
  \<open>strings.Split\<close> for a separator of one byte (the translator only ever splits on
  \<open>" "\<close>): the pieces between the separators, so that a string with \<open>n\<close> separators
  gives \<open>n + 1\<close> pieces and the empty string gives one empty piece.
\<close>

fun Split :: "string \<Rightarrow> char \<Rightarrow> string list" where
  "Split [] sep = [[]]"
| "Split (x # xs) sep =
     (if x = sep then [] # Split xs sep
      else (case Split xs sep of
              [] \<Rightarrow> [[x]]
            | p # ps \<Rightarrow> (x # p) # ps))"

text \<open>
  \<open>strings.Trim\<close> with a cutset of ASCII bytes: every leading and trailing byte that
  occurs in the cutset is removed.
\<close>

definition Trim :: "string \<Rightarrow> string \<Rightarrow> string" where
  "Trim s cutset =
     rev (dropWhile (\<lambda>ch. ch \<in> set cutset) (rev (dropWhile (\<lambda>ch. ch \<in> set cutset) s)))"

text \<open>
  \<open>strings.TrimSpace\<close> removes leading and trailing Unicode white space. On the bytes
  of a string that is: the six ASCII space bytes, and the UTF-8 encodings of U+0085,
  U+00A0, U+1680, U+2000 to U+200A, U+2028, U+2029, U+202F, U+205F and U+3000.
  \<open>spaceWidth\<close> is the number of bytes of the space rune a string starts with (0 when it
  starts with none); \<open>spaceWidthRev\<close> is the same for the rune a string ends with, read
  on the reversed string.
\<close>

definition asciiSpace :: "char \<Rightarrow> bool" where
  "asciiSpace ch = (ch = CHR 0x09 \<or> ch = CHR 0x0A \<or> ch = CHR 0x0B \<or> ch = CHR 0x0C
                    \<or> ch = CHR 0x0D \<or> ch = CHR 0x20)"

definition spaceRune3 :: "char \<Rightarrow> char \<Rightarrow> char \<Rightarrow> bool" where
  "spaceRune3 a b d =
     ((a = CHR 0xE1 \<and> b = CHR 0x9A \<and> d = CHR 0x80)
      \<or> (a = CHR 0xE2 \<and> b = CHR 0x80
           \<and> (((0x80::nat) \<le> of_char d \<and> (of_char d :: nat) \<le> 0x8A) \<or> d = CHR 0xA8
                 \<or> d = CHR 0xA9 \<or> d = CHR 0xAF))
      \<or> (a = CHR 0xE2 \<and> b = CHR 0x81 \<and> d = CHR 0x9F)
      \<or> (a = CHR 0xE3 \<and> b = CHR 0x80 \<and> d = CHR 0x80))"

definition spaceRune2 :: "char \<Rightarrow> char \<Rightarrow> bool" where
  "spaceRune2 a b = (a = CHR 0xC2 \<and> (b = CHR 0x85 \<or> b = CHR 0xA0))"

fun spaceWidth :: "string \<Rightarrow> nat" where
  "spaceWidth [] = 0"
| "spaceWidth [a] = (if asciiSpace a then 1 else 0)"
| "spaceWidth [a, b] = (if asciiSpace a then 1 else if spaceRune2 a b then 2 else 0)"
| "spaceWidth (a # b # d # r) =
     (if asciiSpace a then 1 else if spaceRune2 a b then 2
      else if spaceRune3 a b d then 3 else 0)"

fun spaceWidthRev :: "string \<Rightarrow> nat" where
  "spaceWidthRev [] = 0"
| "spaceWidthRev [a] = (if asciiSpace a then 1 else 0)"
| "spaceWidthRev [b, a] = (if asciiSpace b then 1 else if spaceRune2 a b then 2 else 0)"
| "spaceWidthRev (d # b # a # r) =
     (if asciiSpace d then 1 else if spaceRune2 b d then 2
      else if spaceRune3 a b d then 3 else 0)"

function trimSpaceLeft :: "string \<Rightarrow> string" where
  "trimSpaceLeft s = (if spaceWidth s = 0 then s else trimSpaceLeft (drop (spaceWidth s) s))"
  by pat_completeness auto
termination
proof (relation "measure length")
  show "wf (measure length)" by simp
next
  fix s :: string
  assume nz: "spaceWidth s \<noteq> 0"
  then have "0 < length s" by (cases s) auto
  with nz show "(drop (spaceWidth s) s, s) \<in> measure length" by simp
qed

function trimSpaceRightRev :: "string \<Rightarrow> string" where
  "trimSpaceRightRev s =
     (if spaceWidthRev s = 0 then s else trimSpaceRightRev (drop (spaceWidthRev s) s))"
  by pat_completeness auto
termination
proof (relation "measure length")
  show "wf (measure length)" by simp
next
  fix s :: string
  assume nz: "spaceWidthRev s \<noteq> 0"
  then have "0 < length s" by (cases s) auto
  with nz show "(drop (spaceWidthRev s) s, s) \<in> measure length" by simp
qed

definition TrimSpace :: "string \<Rightarrow> string" where
  "TrimSpace s = rev (trimSpaceRightRev (rev (trimSpaceLeft s)))"

section \<open>The syntax tree of \<open>go/ast\<close> and the tokens of \<open>go/token\<close>\<close>

text \<open>
  The operator, keyword and literal tokens a syntax tree can hold (\<open>token.ADD\<close> is
  \<open>tok_ADD\<close>), with \<open>Token.String\<close>.
\<close>

datatype token =
    tok_INT | tok_FLOAT | tok_IMAG | tok_CHAR | tok_STRING
  | tok_ADD | tok_SUB | tok_MUL | tok_QUO | tok_REM
  | tok_AND | tok_OR | tok_XOR | tok_SHL | tok_SHR | tok_AND_NOT
  | tok_ADD_ASSIGN | tok_SUB_ASSIGN | tok_MUL_ASSIGN | tok_QUO_ASSIGN | tok_REM_ASSIGN
  | tok_AND_ASSIGN | tok_OR_ASSIGN | tok_XOR_ASSIGN | tok_SHL_ASSIGN | tok_SHR_ASSIGN | tok_AND_NOT_ASSIGN
  | tok_LAND | tok_LOR | tok_ARROW | tok_INC | tok_DEC
  | tok_EQL | tok_LSS | tok_GTR | tok_ASSIGN | tok_NOT
  | tok_NEQ | tok_LEQ | tok_GEQ | tok_DEFINE | tok_TILDE
  | tok_BREAK | tok_CONTINUE | tok_GOTO | tok_FALLTHROUGH
  | tok_IMPORT | tok_TYPE | tok_VAR | tok_CONST

fun token_String :: "token \<Rightarrow> string" where
  "token_String tok_INT = ''INT''"
| "token_String tok_FLOAT = ''FLOAT''"
| "token_String tok_IMAG = ''IMAG''"
| "token_String tok_CHAR = ''CHAR''"
| "token_String tok_STRING = ''STRING''"
| "token_String tok_ADD = ''+''"
| "token_String tok_SUB = ''-''"
| "token_String tok_MUL = ''*''"
| "token_String tok_QUO = ''/''"
| "token_String tok_REM = ''%''"
| "token_String tok_AND = ''&''"
| "token_String tok_OR = ''|''"
| "token_String tok_XOR = ''^''"
| "token_String tok_SHL = ''<<''"
| "token_String tok_SHR = ''>>''"
| "token_String tok_AND_NOT = ''&^''"
| "token_String tok_ADD_ASSIGN = ''+=''"
| "token_String tok_SUB_ASSIGN = ''-=''"
| "token_String tok_MUL_ASSIGN = ''*=''"
| "token_String tok_QUO_ASSIGN = ''/=''"
| "token_String tok_REM_ASSIGN = ''%=''"
| "token_String tok_AND_ASSIGN = ''&=''"
| "token_String tok_OR_ASSIGN = ''|=''"
| "token_String tok_XOR_ASSIGN = ''^=''"
| "token_String tok_SHL_ASSIGN = ''<<=''"
| "token_String tok_SHR_ASSIGN = ''>>=''"
| "token_String tok_AND_NOT_ASSIGN = ''&^=''"
| "token_String tok_LAND = ''&&''"
| "token_String tok_LOR = ''||''"
| "token_String tok_ARROW = ''<-''"
| "token_String tok_INC = ''++''"
| "token_String tok_DEC = ''--''"
| "token_String tok_EQL = ''==''"
| "token_String tok_LSS = ''<''"
| "token_String tok_GTR = ''>''"
| "token_String tok_ASSIGN = ''=''"
| "token_String tok_NOT = ''!''"
| "token_String tok_NEQ = ''!=''"
| "token_String tok_LEQ = ''<=''"
| "token_String tok_GEQ = ''>=''"
| "token_String tok_DEFINE = '':=''"
| "token_String tok_TILDE = ''~''"
| "token_String tok_BREAK = ''break''"
| "token_String tok_CONTINUE = ''continue''"
| "token_String tok_GOTO = ''goto''"
| "token_String tok_FALLTHROUGH = ''fallthrough''"
| "token_String tok_IMPORT = ''import''"
| "token_String tok_TYPE = ''type''"
| "token_String tok_VAR = ''var''"
| "token_String tok_CONST = ''const''"

text \<open>
  Expressions and type expressions (\<open>ast.Expr\<close>). A field the parser may leave
  \<open>nil\<close> is an \<open>option\<close>; a slice is a list. \<open>OtherExpr\<close> stands for every node kind
  the translator has no case for (function literals, parenthesised and slice
  expressions, key-value pairs, channel types, and so on): it never looks inside them.
\<close>

datatype expr =
    Ident string
  | BasicLit token string
  | BinaryExpr expr token expr
  | UnaryExpr token expr
  | CallExpr expr "expr list"
  | SelectorExpr expr string
  | IndexExpr expr expr
  | CompositeLit "expr option" "expr list"
  | TypeAssertExpr expr "expr option"
  | StarExpr expr
  | ArrayType "expr option" expr
  | MapType expr expr
  | StructType "field list option"
  | InterfaceType "field list option"
  | FuncType "field list option" "field list option"
  | OtherExpr
and field = Field (Names: "string list") (Type: expr)

section \<open>Types and expressions\<close>

text \<open>
  \<open>convertType\<close> and \<open>convertExpr\<close> return the empty string at once on a \<open>nil\<close>
  node. The functions below take a node that is there; the one field the translator
  passes on that the parser may leave \<open>nil\<close> is the type of a type assertion, where the
  \<open>None\<close> case gives the empty string (\<open>convertType_opt\<close> states the same check on its
  own). \<open>convertCallExpr\<close> and \<open>convertCompositeLit\<close> take the fields of their node. A
  \<open>return\<close> inside a \<open>switch\<close> case ends the function; a case that does not return
  leaves the switch and reaches the generic rendering \<open>funcName(args)\<close> at the end of
  \<open>convertCallExpr\<close>.
\<close>

function (sequential) convertType :: "expr \<Rightarrow> string"
and convertExpr :: "expr \<Rightarrow> string"
and convertCallExpr :: "expr \<Rightarrow> expr list \<Rightarrow> string"
and convertCompositeLit :: "expr option \<Rightarrow> expr list \<Rightarrow> string"
where
  "convertType (Ident name) =
     (if name = ''int'' \<or> name = ''int32'' then ''int''
      else if name = ''int64'' then ''i64''
      else if name = ''string'' then ''string''
      else if name = ''bool'' then ''bool''
      else if name = ''byte'' then ''char''
      else if name = ''float32'' \<or> name = ''float64'' then ''float''
      else name)"
| "convertType (ArrayType len elt) = ''list['' @ convertType elt @ '']''"
| "convertType (MapType key val) =
     ''map['' @ convertType key @ '': '' @ convertType val @ '']''"
| "convertType (StarExpr x) = ''ref '' @ convertType x"
| "convertType (SelectorExpr x sel) = convertExpr (SelectorExpr x sel)"
| "convertType _ = ''unknown''"
| "convertExpr (Ident name) = name"
| "convertExpr (BasicLit kind val) = (if kind = tok_STRING then val else val)"
| "convertExpr (BinaryExpr x opr y) =
     (let left = convertExpr x;
          right = convertExpr y;
          op = token_String opr;
          op = (if op = ''&&'' then ''&&''
                else if op = ''||'' then ''||''
                else if op = ''!='' then ''!=''
                else if op = ''=='' then ''==''
                else op)
      in left @ '' '' @ op @ '' '' @ right)"
| "convertExpr (UnaryExpr opr x) =
     (let operand = convertExpr x; op = token_String opr in op @ operand)"
| "convertExpr (CallExpr fn args) = convertCallExpr fn args"
| "convertExpr (SelectorExpr x sel) = convertExpr x @ ''.'' @ sel"
| "convertExpr (IndexExpr x index) = convertExpr x @ ''['' @ convertExpr index @ '']''"
| "convertExpr (CompositeLit typ elts) = convertCompositeLit typ elts"
| "convertExpr (TypeAssertExpr x typ) =
     ''('' @ (case typ of None \<Rightarrow> [] | Some t \<Rightarrow> convertType t) @ '')'' @ convertExpr x"
| "convertExpr _ = ''# unknown expression''"
| "convertCallExpr (Ident name) args =
     (let funcName = name;
          generic = funcName @ ''('' @ Join (map convertExpr args) '', '' @ '')''
      in if funcName = ''fmt.Printf'' \<or> funcName = ''printf'' then
           (case args of
              [] \<Rightarrow> generic
            | a0 # rest \<Rightarrow>
                (let format = convertExpr a0; args' = map convertExpr rest
                 in if length args' > 0
                    then ''print '' @ format @ '' | '' @ Join args' '', ''
                    else ''print '' @ format))
         else if funcName = ''fmt.Println'' \<or> funcName = ''println'' then
           (case args of
              [] \<Rightarrow> generic
            | a0 # rest \<Rightarrow> ''print '' @ convertExpr a0)
         else if funcName = ''make'' then
           (case args of
              [] \<Rightarrow> generic
            | a0 # rest \<Rightarrow>
                (let typ = convertType a0
                 in if HasPrefix typ ''list['' then
                      (case rest of
                         a1 # rest' \<Rightarrow> ''new '' @ typ @ ''('' @ convertExpr a1 @ '')''
                       | [] \<Rightarrow> ''new '' @ typ @ ''()'')
                    else if HasPrefix typ ''map['' then ''[]''
                    else generic))
         else if funcName = ''len'' then
           (case args of
              [] \<Rightarrow> generic
            | a0 # rest \<Rightarrow> ''len('' @ convertExpr a0 @ '')'')
         else if funcName = ''append'' then
           (case args of
              a0 # a1 # rest \<Rightarrow> convertExpr a0 @ ''.add('' @ convertExpr a1 @ '')''
            | _ \<Rightarrow> generic)
         else generic)"
| "convertCallExpr (SelectorExpr x sel) args =
     (let obj = convertExpr x;
          method = sel;
          funcName = obj @ ''.'' @ method;
          generic = funcName @ ''('' @ Join (map convertExpr args) '', '' @ '')''
      in if obj = ''fmt'' then
           (if method = ''Printf'' then
              (case args of
                 [] \<Rightarrow> generic
               | a0 # rest \<Rightarrow>
                   (let format = convertExpr a0; args' = map convertExpr rest
                    in if length args' > 0
                       then ''print '' @ format @ '' | '' @ Join args' '', ''
                       else ''print '' @ format))
            else if method = ''Println'' then
              (case args of
                 [] \<Rightarrow> generic
               | a0 # rest \<Rightarrow> ''print '' @ convertExpr a0)
            else generic)
         else generic)"
| "convertCallExpr _ args = [] @ ''('' @ Join (map convertExpr args) '', '' @ '')''"
| "convertCompositeLit None elts = ''# composite literal''"
| "convertCompositeLit (Some ty) elts =
     (let typ = convertType ty
      in if HasPrefix typ ''list[''
         then ''['' @ Join (map convertExpr elts) '', '' @ '']''
         else ''# composite literal'')"
  by pat_completeness auto
termination
proof -
  have le: "size x \<le> size_list size xs" if "x \<in> set xs" for x :: expr and xs
    using that by (induction xs) auto
  show ?thesis
    by (relation "measure (\<lambda>x. case x of
          Inl (Inl t) \<Rightarrow> 2 * size t + 1
        | Inl (Inr e) \<Rightarrow> 2 * size e
        | Inr (Inl (fn, args)) \<Rightarrow> 2 * (size fn + size_list size args) + 1
        | Inr (Inr (ty, elts)) \<Rightarrow> 2 * (size_option size ty + size_list size elts) + 1)")
      (auto simp: less_Suc_eq_le dest!: le)
qed

definition convertType_opt :: "expr option \<Rightarrow> string" where
  "convertType_opt e = (case e of None \<Rightarrow> [] | Some t \<Rightarrow> convertType t)"


section \<open>The translator's state\<close>

text \<open>
  The fields of \<open>ScarConverter\<close> without the parser's file set. \<open>indentLevel\<close> is a Go
  \<open>int\<close>; the depth is one more than the nesting of the node being emitted, far below
  \<open>2^63\<close>, so it is an unbounded \<open>int\<close> here and its wrap-around is left out.
\<close>

record ScarConverter =
  indentLevel :: int
  "output" :: string
  "imports" :: "string list"
  inFunction :: bool
  inStruct :: bool
  currentFunc :: string

definition NewScarConverter :: ScarConverter where
  "NewScarConverter =
     \<lparr>indentLevel = 0, output = [], imports = [], inFunction = False, inStruct = False,
      currentFunc = []\<rparr>"

text \<open>
  The one run-time panic the emitters can reach: \<open>strings.Repeat\<close> panics on a negative
  count (and on a result longer than an \<open>int\<close> can count, which needs a depth of
  \<open>2^61\<close> and is left out with the wrap-around). An emitter returns \<open>Inl\<close> of the panic or \<open>Inr\<close> of the state it leaves.
\<close>

datatype panic = NegativeRepeatCount

definition Repeat :: "string \<Rightarrow> int \<Rightarrow> panic + string" where
  "Repeat s count =
     (if count < 0 then Inl NegativeRepeatCount else Inr (concat (replicate (nat count) s)))"

definition indent :: "ScarConverter \<Rightarrow> panic + string" where
  "indent c = Repeat ''    '' (indentLevel c)"

definition writeln :: "ScarConverter \<Rightarrow> string \<Rightarrow> panic + ScarConverter" where
  "writeln c s =
     (case indent c of
        Inl e \<Rightarrow> Inl e
      | Inr ind \<Rightarrow> Inr (c\<lparr>output := output c @ ind @ s @ [CHR 0x0A]\<rparr>))"

section \<open>Statements\<close>

text \<open>
  Declarations inside a statement and at top level (\<open>ast.GenDecl\<close> with its specs), and
  statements (\<open>ast.Stmt\<close>). A \<open>BlockStmt\<close> is its statement list. A \<open>CaseClause\<close> with
  the \<open>nil\<close> list (the \<open>default\<close> clause) has the empty list; the parser gives every other
  clause at least one expression. \<open>OtherStmt\<close> stands for every statement kind that
  \<open>convertStmt\<close> has no case for (empty, labeled, go, defer, send and select statements,
  communication clauses).
\<close>

datatype spec =
    ValueSpec "string list" "expr option" "expr list"
  | TypeSpec string expr
  | ImportSpec string

datatype gen_decl = GenDecl token "spec list"

datatype stmt =
    ExprStmt expr
  | AssignStmt "expr list" token "expr list"
  | DeclStmt gen_decl
  | IfStmt "stmt option" expr "stmt list" "stmt option"
  | ForStmt "stmt option" "expr option" "stmt option" "stmt list"
  | RangeStmt "expr option" "expr option" expr "stmt list"
  | ReturnStmt "expr list"
  | BlockStmt "stmt list"
  | IncDecStmt expr token
  | SwitchStmt "stmt option" "expr option" "stmt list"
  | TypeSwitchStmt
  | CaseClause "expr list" "stmt list"
  | BranchStmt token
  | OtherStmt

definition convertAssignStmt ::
  "ScarConverter \<Rightarrow> expr list \<Rightarrow> token \<Rightarrow> expr list \<Rightarrow> panic + ScarConverter" where
  "convertAssignStmt c Lhs Tok Rhs =
     (if length Lhs = 1 \<and> length Rhs = 1 then
        (let lhs = convertExpr (Lhs ! 0); rhs = convertExpr (Rhs ! 0)
         in if Tok = tok_ASSIGN then writeln c (lhs @ '' = '' @ rhs)
            else if Tok = tok_DEFINE then writeln c (lhs @ '' = '' @ rhs)
            else if Tok = tok_ADD_ASSIGN then writeln c (lhs @ '' = '' @ lhs @ '' + '' @ rhs)
            else if Tok = tok_SUB_ASSIGN then writeln c (lhs @ '' = '' @ lhs @ '' - '' @ rhs)
            else writeln c (lhs @ '' = '' @ rhs))
      else Inr c)"

text \<open>
  The loop over the names of one \<open>ValueSpec\<close>, with the index \<open>i\<close> of the name; the
  same loop body stands in \<open>convertDeclStmt\<close> and in \<open>ConvertFile\<close>.
\<close>

fun convertValueSpec ::
  "ScarConverter \<Rightarrow> expr option \<Rightarrow> expr list \<Rightarrow> nat \<Rightarrow> string list \<Rightarrow> panic + ScarConverter"
where
  "convertValueSpec c Typ Values i [] = Inr c"
| "convertValueSpec c Typ Values i (name # names) =
     (let typ = (case Typ of None \<Rightarrow> [] | Some t \<Rightarrow> convertType t)
      in case (if length Values > i then
                 (let val = convertExpr (Values ! i)
                  in if typ \<noteq> [] then writeln c (typ @ '' '' @ name @ '' = '' @ val)
                     else writeln c (name @ '' = '' @ val))
               else if typ \<noteq> [] then writeln c (typ @ '' '' @ name)
               else Inr c) of
           Inl e \<Rightarrow> Inl e
         | Inr c' \<Rightarrow> convertValueSpec c' Typ Values (i + 1) names)"

fun convertValueSpecs :: "ScarConverter \<Rightarrow> spec list \<Rightarrow> panic + ScarConverter" where
  "convertValueSpecs c [] = Inr c"
| "convertValueSpecs c (sp # specs) =
     (case (case sp of
              ValueSpec names typ vals \<Rightarrow> convertValueSpec c typ vals 0 names
            | _ \<Rightarrow> Inr c) of
        Inl e \<Rightarrow> Inl e
      | Inr c' \<Rightarrow> convertValueSpecs c' specs)"

definition convertDeclStmt :: "ScarConverter \<Rightarrow> gen_decl \<Rightarrow> panic + ScarConverter" where
  "convertDeclStmt c d = (case d of GenDecl tok specs \<Rightarrow> convertValueSpecs c specs)"

definition convertReturnStmt :: "ScarConverter \<Rightarrow> expr list \<Rightarrow> panic + ScarConverter" where
  "convertReturnStmt c Results =
     (if length Results = 0 then writeln c ''return''
      else if length Results = 1 then writeln c (''return '' @ convertExpr (Results ! 0))
      else writeln c (''return '' @ Join (map convertExpr Results) '', ''))"

definition convertIncDecStmt :: "ScarConverter \<Rightarrow> expr \<Rightarrow> token \<Rightarrow> panic + ScarConverter" where
  "convertIncDecStmt c X Tok =
     (let x = convertExpr X
      in if Tok = tok_INC then writeln c (x @ '' = '' @ x @ '' + 1'')
         else writeln c (x @ '' = '' @ x @ '' - 1''))"

definition convertBranchStmt :: "ScarConverter \<Rightarrow> token \<Rightarrow> panic + ScarConverter" where
  "convertBranchStmt c Tok =
     (if Tok = tok_BREAK then writeln c ''break''
      else if Tok = tok_CONTINUE then writeln c ''continue''
      else Inr c)"

text \<open>
  The recursive emitters take the fields of their node. \<open>c.indentLevel++\<close> and
  \<open>c.indentLevel--\<close> are the record updates; \<open>convertBlockStmt\<close> is the loop over a
  statement list (\<open>convertCaseClause\<close> runs the same loop over its body).
  \<open>convertStmtToString\<close> returns the rendered text with the state it leaves.
\<close>

function (sequential)
    convertStmt :: "ScarConverter \<Rightarrow> stmt \<Rightarrow> panic + ScarConverter"
and convertIfStmt ::
      "ScarConverter \<Rightarrow> stmt option \<Rightarrow> expr \<Rightarrow> stmt list \<Rightarrow> stmt option \<Rightarrow> panic + ScarConverter"
and convertElseIfStmt ::
      "ScarConverter \<Rightarrow> stmt option \<Rightarrow> expr \<Rightarrow> stmt list \<Rightarrow> stmt option \<Rightarrow> panic + ScarConverter"
and convertForStmt ::
      "ScarConverter \<Rightarrow> stmt option \<Rightarrow> expr option \<Rightarrow> stmt option \<Rightarrow> stmt list
         \<Rightarrow> panic + ScarConverter"
and convertRangeStmt ::
      "ScarConverter \<Rightarrow> expr option \<Rightarrow> expr option \<Rightarrow> expr \<Rightarrow> stmt list \<Rightarrow> panic + ScarConverter"
and convertBlockStmt :: "ScarConverter \<Rightarrow> stmt list \<Rightarrow> panic + ScarConverter"
and convertSwitchStmt ::
      "ScarConverter \<Rightarrow> stmt option \<Rightarrow> expr option \<Rightarrow> stmt list \<Rightarrow> panic + ScarConverter"
and convertCaseClause :: "ScarConverter \<Rightarrow> expr list \<Rightarrow> stmt list \<Rightarrow> panic + ScarConverter"
and convertStmtToString :: "ScarConverter \<Rightarrow> stmt \<Rightarrow> panic + string \<times> ScarConverter"
where
  "convertStmt c (ExprStmt x) = writeln c (convertExpr x)"
| "convertStmt c (AssignStmt lhs tok rhs) = convertAssignStmt c lhs tok rhs"
| "convertStmt c (DeclStmt d) = convertDeclStmt c d"
| "convertStmt c (IfStmt init cond body els) = convertIfStmt c init cond body els"
| "convertStmt c (ForStmt init cond post body) = convertForStmt c init cond post body"
| "convertStmt c (RangeStmt key val x body) = convertRangeStmt c key val x body"
| "convertStmt c (ReturnStmt results) = convertReturnStmt c results"
| "convertStmt c (BlockStmt list) = convertBlockStmt c list"
| "convertStmt c (IncDecStmt x tok) = convertIncDecStmt c x tok"
| "convertStmt c (SwitchStmt init tag body) = convertSwitchStmt c init tag body"
| "convertStmt c TypeSwitchStmt = writeln c ''# type switch not supported */''"
| "convertStmt c (CaseClause list body) = convertCaseClause c list body"
| "convertStmt c (BranchStmt tok) = convertBranchStmt c tok"
| "convertStmt c OtherStmt = writeln c ''# unknown statement''"
| "convertIfStmt c init cond body els =
     (case (case init of None \<Rightarrow> Inr c | Some i \<Rightarrow> convertStmt c i) of
        Inl e \<Rightarrow> Inl e
      | Inr c1 \<Rightarrow>
     (case writeln c1 (''if '' @ convertExpr cond @ '':'') of
        Inl e \<Rightarrow> Inl e
      | Inr c2 \<Rightarrow>
     (case (case convertBlockStmt (c2\<lparr>indentLevel := indentLevel c2 + 1\<rparr>) body of
              Inl e \<Rightarrow> Inl e
            | Inr c3 \<Rightarrow> Inr (c3\<lparr>indentLevel := indentLevel c3 - 1\<rparr>)) of
        Inl e \<Rightarrow> Inl e
      | Inr c4 \<Rightarrow>
     (case els of
        None \<Rightarrow> Inr c4
      | Some (IfStmt init' cond' body' els') \<Rightarrow>
          convertElseIfStmt c4 init' cond' body' els'
      | Some (BlockStmt elseBlock) \<Rightarrow>
          (case writeln c4 ''else:'' of
             Inl e \<Rightarrow> Inl e
           | Inr c5 \<Rightarrow>
          (case convertBlockStmt (c5\<lparr>indentLevel := indentLevel c5 + 1\<rparr>) elseBlock of
             Inl e \<Rightarrow> Inl e
           | Inr c6 \<Rightarrow> Inr (c6\<lparr>indentLevel := indentLevel c6 - 1\<rparr>)))
      | Some _ \<Rightarrow> Inr c4))))"
| "convertElseIfStmt c init cond body els =
     (case (case init of None \<Rightarrow> Inr c | Some i \<Rightarrow> convertStmt c i) of
        Inl e \<Rightarrow> Inl e
      | Inr c1 \<Rightarrow>
     (case writeln c1 (''elif '' @ convertExpr cond @ '':'') of
        Inl e \<Rightarrow> Inl e
      | Inr c2 \<Rightarrow>
     (case (case convertBlockStmt (c2\<lparr>indentLevel := indentLevel c2 + 1\<rparr>) body of
              Inl e \<Rightarrow> Inl e
            | Inr c3 \<Rightarrow> Inr (c3\<lparr>indentLevel := indentLevel c3 - 1\<rparr>)) of
        Inl e \<Rightarrow> Inl e
      | Inr c4 \<Rightarrow>
     (case els of
        None \<Rightarrow> Inr c4
      | Some (IfStmt init' cond' body' els') \<Rightarrow>
          convertElseIfStmt c4 init' cond' body' els'
      | Some (BlockStmt elseBlock) \<Rightarrow>
          (case writeln c4 ''else:'' of
             Inl e \<Rightarrow> Inl e
           | Inr c5 \<Rightarrow>
          (case convertBlockStmt (c5\<lparr>indentLevel := indentLevel c5 + 1\<rparr>) elseBlock of
             Inl e \<Rightarrow> Inl e
           | Inr c6 \<Rightarrow> Inr (c6\<lparr>indentLevel := indentLevel c6 - 1\<rparr>)))
      | Some _ \<Rightarrow> Inr c4))))"
| "convertForStmt c init cond post body =
     (let whileLoop = (case cond of
                         Some cnd \<Rightarrow> writeln c (''while '' @ convertExpr cnd @ '':'')
                       | None \<Rightarrow> writeln c ''while true:'')
      in case (case init of
                 None \<Rightarrow> whileLoop
               | Some i \<Rightarrow>
              (case cond of
                 None \<Rightarrow> whileLoop
               | Some cnd \<Rightarrow>
              (case post of
                 None \<Rightarrow> whileLoop
               | Some p \<Rightarrow>
              (case convertStmtToString c i of
                 Inl e \<Rightarrow> Inl e
               | Inr (s1, c1) \<Rightarrow>
              (let init' = TrimSpace s1; cond' = convertExpr cnd
               in case convertStmtToString c1 p of
                    Inl e \<Rightarrow> Inl e
                  | Inr (s2, c2) \<Rightarrow>
                 (let post' = TrimSpace s2; initParts = Split init' CHR '' ''
                  in if length initParts \<ge> 3 then
                       (let varName = initParts ! (length initParts - 3)
                        in writeln c2 (''for '' @ varName @ ''; '' @ cond' @ ''; '' @ post' @ '':''))
                     else writeln c2 (''while '' @ cond' @ '':''))))))) of
           Inl e \<Rightarrow> Inl e
         | Inr c3 \<Rightarrow>
        (case convertBlockStmt (c3\<lparr>indentLevel := indentLevel c3 + 1\<rparr>) body of
           Inl e \<Rightarrow> Inl e
         | Inr c4 \<Rightarrow> Inr (c4\<lparr>indentLevel := indentLevel c4 - 1\<rparr>)))"
| "convertRangeStmt c key val x body =
     (let x' = convertExpr x
      in case (case key of
                 None \<Rightarrow> Inr c
               | Some k \<Rightarrow>
                   (case val of
                      Some v \<Rightarrow>
                        writeln c (''for '' @ convertExpr k @ '', '' @ convertExpr v @ '' in '' @ x' @ '':'')
                    | None \<Rightarrow> writeln c (''for '' @ convertExpr k @ '' in '' @ x' @ '':''))) of
           Inl e \<Rightarrow> Inl e
         | Inr c1 \<Rightarrow>
        (case convertBlockStmt (c1\<lparr>indentLevel := indentLevel c1 + 1\<rparr>) body of
           Inl e \<Rightarrow> Inl e
         | Inr c2 \<Rightarrow> Inr (c2\<lparr>indentLevel := indentLevel c2 - 1\<rparr>)))"
| "convertBlockStmt c [] = Inr c"
| "convertBlockStmt c (s # list) =
     (case convertStmt c s of
        Inl e \<Rightarrow> Inl e
      | Inr c' \<Rightarrow> convertBlockStmt c' list)"
| "convertSwitchStmt c init tag body =
     (case (case init of None \<Rightarrow> Inr c | Some i \<Rightarrow> convertStmt c i) of
        Inl e \<Rightarrow> Inl e
      | Inr c1 \<Rightarrow>
     (case (case tag of
              Some t \<Rightarrow> writeln c1 (''switch '' @ convertExpr t @ '':'')
            | None \<Rightarrow> writeln c1 ''switch:'') of
        Inl e \<Rightarrow> Inl e
      | Inr c2 \<Rightarrow>
     (case convertBlockStmt (c2\<lparr>indentLevel := indentLevel c2 + 1\<rparr>) body of
        Inl e \<Rightarrow> Inl e
      | Inr c3 \<Rightarrow> Inr (c3\<lparr>indentLevel := indentLevel c3 - 1\<rparr>))))"
| "convertCaseClause c list body =
     (case (if list = [] then writeln c ''default:''
            else writeln c (''case '' @ Join (map convertExpr list) '', '' @ '':'')) of
        Inl e \<Rightarrow> Inl e
      | Inr c1 \<Rightarrow>
     (case convertBlockStmt (c1\<lparr>indentLevel := indentLevel c1 + 1\<rparr>) body of
        Inl e \<Rightarrow> Inl e
      | Inr c2 \<Rightarrow> Inr (c2\<lparr>indentLevel := indentLevel c2 - 1\<rparr>)))"
| "convertStmtToString c s =
     (let oldOutput = output c; oldIndent = indentLevel c
      in case convertStmt (c\<lparr>output := [], indentLevel := 0\<rparr>) s of
           Inl e \<Rightarrow> Inl e
         | Inr c1 \<Rightarrow>
             (let result = TrimSpace (output c1)
              in Inr (result, c1\<lparr>output := oldOutput, indentLevel := oldIndent\<rparr>)))"
  by pat_completeness auto
termination
  by (relation "measure (\<lambda>x. case x of
        Inl (Inl (Inl (c, s))) \<Rightarrow> 2 * size s
      | Inl (Inl (Inr (c, init, cond, body, els))) \<Rightarrow>
          2 * (size_option size init + size_list size body + size_option size els) + 1
      | Inl (Inr (Inl (c, init, cond, body, els))) \<Rightarrow>
          2 * (size_option size init + size_list size body + size_option size els) + 1
      | Inl (Inr (Inr (c, init, cond, post, body))) \<Rightarrow>
          2 * (size_option size init + size_option size post + size_list size body) + 1
      | Inr (Inl (Inl (c, key, val, x, body))) \<Rightarrow> 2 * size_list size body + 1
      | Inr (Inl (Inr (c, list))) \<Rightarrow> 2 * size_list size list
      | Inr (Inr (Inl (c, init, tag, body))) \<Rightarrow>
          2 * (size_option size init + size_list size body) + 1
      | Inr (Inr (Inr (Inl (c, list, body)))) \<Rightarrow> 2 * size_list size body + 1
      | Inr (Inr (Inr (Inr (c, s)))) \<Rightarrow> 2 * size s + 1)")
    auto


declare convertIfStmt.simps [simp del] convertElseIfStmt.simps [simp del]
  convertForStmt.simps [simp del] convertRangeStmt.simps [simp del]
  convertSwitchStmt.simps [simp del] convertCaseClause.simps [simp del]
  convertStmtToString.simps [simp del]

section \<open>Declarations\<close>

text \<open>
  \<open>ast.FuncDecl\<close>: the receiver list, the name, the parameter and result lists of its
  \<open>FuncType\<close>, and the body (absent for a declaration without one).
\<close>

datatype func_decl =
  FuncDecl "field list option" string "field list option" "field list option" "stmt list option"

datatype decl = FuncDecl_decl func_decl | GenDecl_decl gen_decl

text \<open>The parameter strings built by the loops over a field list and its names.\<close>

definition paramStrings :: "field list \<Rightarrow> string list" where
  "paramStrings fieldList =
     concat (map (\<lambda>fld. let paramType = convertType (Type fld)
                         in map (\<lambda>name. paramType @ '' '' @ name) (Names fld)) fieldList)"

fun convertFuncDecl :: "ScarConverter \<Rightarrow> func_decl \<Rightarrow> panic + ScarConverter" where
  "convertFuncDecl c (FuncDecl Recv Name Params Results Body) =
     (if Name = ''main'' \<and> Recv = None then
        (case Body of
           Some body \<Rightarrow> convertBlockStmt c body
         | None \<Rightarrow> Inr c)
      else
        (let receiver =
               (case Recv of
                  Some (fld # flds) \<Rightarrow>
                    (let receiver0 = (case Names fld of n # ns \<Rightarrow> n | [] \<Rightarrow> []);
                         recvType = convertType (Type fld);
                         recvType = (if HasPrefix recvType ''ref ''
                                     then TrimPrefix recvType ''ref '' else recvType)
                     in ''this '' @ recvType)
                | _ \<Rightarrow> []);
             funcName = Name;
             params = (case Params of Some fieldList \<Rightarrow> paramStrings fieldList | None \<Rightarrow> []);
             returnType =
               (case Results of
                  Some (r # rs) \<Rightarrow>
                    (if length (r # rs) = 1 \<and> length (Names r) \<le> 1
                     then '' -> '' @ convertType (Type r) else [])
                | _ \<Rightarrow> [])
         in case (if receiver \<noteq> []
                  then writeln c (''fn '' @ funcName @ ''('' @ Join params '', '' @ '')''
                                   @ returnType @ '':'')
                  else writeln c (''fn '' @ funcName @ ''('' @ Join params '', '' @ '')''
                                   @ returnType @ '':'')) of
              Inl e \<Rightarrow> Inl e
            | Inr c1 \<Rightarrow>
           (case (case Body of
                    Some body \<Rightarrow>
                      (case convertBlockStmt (c1\<lparr>indentLevel := indentLevel c1 + 1\<rparr>) body of
                         Inl e \<Rightarrow> Inl e
                       | Inr c2 \<Rightarrow> Inr (c2\<lparr>indentLevel := indentLevel c2 - 1\<rparr>))
                  | None \<Rightarrow> Inr c1) of
              Inl e \<Rightarrow> Inl e
            | Inr c3 \<Rightarrow> writeln c3 [])))"

text \<open>The loops of \<open>convertTypeSpec\<close> over the fields of a struct and their names.\<close>

fun structFieldNames :: "ScarConverter \<Rightarrow> string \<Rightarrow> string list \<Rightarrow> panic + ScarConverter" where
  "structFieldNames c fieldType [] = Inr c"
| "structFieldNames c fieldType (name # names) =
     (case writeln c (fieldType @ '' this.'' @ name) of
        Inl e \<Rightarrow> Inl e
      | Inr c' \<Rightarrow> structFieldNames c' fieldType names)"

fun structFields :: "ScarConverter \<Rightarrow> field list \<Rightarrow> panic + ScarConverter" where
  "structFields c [] = Inr c"
| "structFields c (fld # flds) =
     (case structFieldNames c (convertType (Type fld)) (Names fld) of
        Inl e \<Rightarrow> Inl e
      | Inr c' \<Rightarrow> structFields c' flds)"

text \<open>The loop of \<open>convertTypeSpec\<close> over the methods of an interface.\<close>

fun interfaceMethods :: "ScarConverter \<Rightarrow> field list \<Rightarrow> panic + ScarConverter" where
  "interfaceMethods c [] = Inr c"
| "interfaceMethods c (method # methods) =
     (case (case Names method of
              [] \<Rightarrow> Inr c
            | methodName # ns \<Rightarrow>
                (case Type method of
                   FuncType Params Results \<Rightarrow>
                     (let params = (case Params of
                                      Some fieldList \<Rightarrow> paramStrings fieldList
                                    | None \<Rightarrow> []);
                          returnType = (case Results of
                                          Some (r # rs) \<Rightarrow> '' -> '' @ convertType (Type r)
                                        | _ \<Rightarrow> [])
                      in writeln c (''fn '' @ methodName @ ''('' @ Join params '', '' @ '')''
                                     @ returnType))
                 | _ \<Rightarrow> Inr c)) of
        Inl e \<Rightarrow> Inl e
      | Inr c' \<Rightarrow> interfaceMethods c' methods)"

fun convertTypeSpec :: "ScarConverter \<Rightarrow> string \<Rightarrow> expr \<Rightarrow> panic + ScarConverter" where
  "convertTypeSpec c Name (StructType Fields) =
     (case writeln c (''class '' @ Name @ '':'') of
        Inl e \<Rightarrow> Inl e
      | Inr c1 \<Rightarrow>
     (case (case (case Fields of
                    Some (fld # flds) \<Rightarrow>
                      (case writeln (c1\<lparr>indentLevel := indentLevel c1 + 1\<rparr>) ''init:'' of
                         Inl e \<Rightarrow> Inl e
                       | Inr c2 \<Rightarrow>
                      (case structFields (c2\<lparr>indentLevel := indentLevel c2 + 1\<rparr>)
                              (fld # flds) of
                         Inl e \<Rightarrow> Inl e
                       | Inr c3 \<Rightarrow> Inr (c3\<lparr>indentLevel := indentLevel c3 - 1\<rparr>)))
                  | _ \<Rightarrow> writeln (c1\<lparr>indentLevel := indentLevel c1 + 1\<rparr>) ''init:'') of
              Inl e \<Rightarrow> Inl e
            | Inr c4 \<Rightarrow> Inr (c4\<lparr>indentLevel := indentLevel c4 - 1\<rparr>)) of
        Inl e \<Rightarrow> Inl e
      | Inr c5 \<Rightarrow> writeln c5 []))"
| "convertTypeSpec c Name (InterfaceType Methods) =
     (case writeln c (''interface '' @ Name @ '':'') of
        Inl e \<Rightarrow> Inl e
      | Inr c1 \<Rightarrow>
     (case (case (case Methods of
                    Some methods \<Rightarrow>
                      interfaceMethods (c1\<lparr>indentLevel := indentLevel c1 + 1\<rparr>) methods
                  | None \<Rightarrow> Inr (c1\<lparr>indentLevel := indentLevel c1 + 1\<rparr>)) of
              Inl e \<Rightarrow> Inl e
            | Inr c2 \<Rightarrow> Inr (c2\<lparr>indentLevel := indentLevel c2 - 1\<rparr>)) of
        Inl e \<Rightarrow> Inl e
      | Inr c3 \<Rightarrow> writeln c3 []))"
| "convertTypeSpec c Name _ = Inr c"

section \<open>Imports\<close>

text \<open>
  A Go \<open>switch\<close> case does not fall through: a case with an empty body leaves the switch,
  and the function returns the empty string after it.
\<close>

definition convertImportPath :: "string \<Rightarrow> string" where
  "convertImportPath path =
     (if path = ''crypto/sha256'' then []
      else if path = ''crypto/sha512'' then []
      else if path = ''crypto/sha1'' then []
      else if path = ''crypto/md5'' then ''std/crypto''
      else if path = ''io'' then []
      else if path = ''bufio'' then ''std/io''
      else if path = ''json'' then ''std/json''
      else if path = ''regexp'' then ''std/regex''
      else if path = ''os'' then ''std/os''
      else if path = ''strings'' then ''std/strings''
      else if path = ''strconv'' then ''std/strings''
      else if path = ''math'' then ''std/math''
      else if path = ''time'' then ''std/time''
      else if path = ''math/rand'' then ''std/random''
      else [])"

text \<open>\<open>convertImports\<close> on the specs of an import declaration.\<close>

fun convertImports :: "ScarConverter \<Rightarrow> spec list \<Rightarrow> ScarConverter" where
  "convertImports c [] = c"
| "convertImports c (ImportSpec pathValue # specs) =
     (let path = Trim pathValue [CHR 0x22];
          scarImport = convertImportPath path
      in if scarImport \<noteq> []
         then convertImports (c\<lparr>imports := imports c @ [scarImport]\<rparr>) specs
         else convertImports c specs)"
| "convertImports c (_ # specs) = convertImports c specs"

section \<open>The file\<close>

text \<open>
  \<open>ConvertFile\<close> after reading and parsing: the argument is the \<open>Decls\<close> of the parsed
  file. The three loops are \<open>processImports\<close>, \<open>writeImports\<close> and \<open>processDecls\<close>;
  \<open>convertTypeSpecs\<close> is the loop over the specs of a type declaration.
\<close>

fun processImports :: "ScarConverter \<Rightarrow> decl list \<Rightarrow> ScarConverter" where
  "processImports c [] = c"
| "processImports c (GenDecl_decl (GenDecl tok specs) # decls) =
     (if tok = tok_IMPORT then processImports (convertImports c specs) decls
      else processImports c decls)"
| "processImports c (_ # decls) = processImports c decls"

fun writeImports :: "ScarConverter \<Rightarrow> string list \<Rightarrow> panic + ScarConverter" where
  "writeImports c [] = Inr c"
| "writeImports c (imp # imps) =
     (case writeln c (''import '' @ [CHR 0x22] @ imp @ [CHR 0x22]) of
        Inl e \<Rightarrow> Inl e
      | Inr c' \<Rightarrow> writeImports c' imps)"

fun convertTypeSpecs :: "ScarConverter \<Rightarrow> spec list \<Rightarrow> panic + ScarConverter" where
  "convertTypeSpecs c [] = Inr c"
| "convertTypeSpecs c (sp # specs) =
     (case (case sp of
              TypeSpec name typ \<Rightarrow> convertTypeSpec c name typ
            | _ \<Rightarrow> Inr c) of
        Inl e \<Rightarrow> Inl e
      | Inr c' \<Rightarrow> convertTypeSpecs c' specs)"

fun processDecl :: "ScarConverter \<Rightarrow> decl \<Rightarrow> panic + ScarConverter" where
  "processDecl c (FuncDecl_decl d) = convertFuncDecl c d"
| "processDecl c (GenDecl_decl (GenDecl tok specs)) =
     (if tok = tok_TYPE then convertTypeSpecs c specs
      else if tok = tok_VAR \<or> tok = tok_CONST then
        (case convertValueSpecs c specs of
           Inl e \<Rightarrow> Inl e
         | Inr c' \<Rightarrow> writeln c' [])
      else Inr c)"

fun processDecls :: "ScarConverter \<Rightarrow> decl list \<Rightarrow> panic + ScarConverter" where
  "processDecls c [] = Inr c"
| "processDecls c (d # decls) =
     (case processDecl c d of
        Inl e \<Rightarrow> Inl e
      | Inr c' \<Rightarrow> processDecls c' decls)"

definition ConvertFile :: "ScarConverter \<Rightarrow> decl list \<Rightarrow> panic + string \<times> ScarConverter" where
  "ConvertFile c Decls =
     (let c1 = processImports c Decls
      in case writeImports c1 (imports c1) of
           Inl e \<Rightarrow> Inl e
         | Inr c2 \<Rightarrow>
        (case (if length (imports c2) > 0 then writeln c2 [] else Inr c2) of
           Inl e \<Rightarrow> Inl e
         | Inr c3 \<Rightarrow>
        (case processDecls c3 Decls of
           Inl e \<Rightarrow> Inl e
         | Inr c4 \<Rightarrow> Inr (output c4, c4))))"

section \<open>Predicates for the proofs\<close>

text \<open>
  \<open>lines t\<close>: the text \<open>t\<close> is a sequence of complete lines. \<open>emits c r\<close>: the result
  \<open>r\<close> of an emitter started in state \<open>c\<close>, when it is a state, is \<open>c\<close> with complete
  lines appended to its output and nothing else changed; and it is a state whenever the
  depth of \<open>c\<close> is not negative. \<open>endsWithBlankLine\<close>: the last line of a text holds
  nothing but spaces.
\<close>

definition lines :: "string \<Rightarrow> bool" where
  "lines t = (t = [] \<or> last t = CHR 0x0A)"

definition emits :: "ScarConverter \<Rightarrow> panic + ScarConverter \<Rightarrow> bool" where
  "emits c r =
     ((\<forall>c'. r = Inr c' \<longrightarrow> (\<exists>t. c' = c\<lparr>output := output c @ t\<rparr> \<and> lines t))
      \<and> (0 \<le> indentLevel c \<longrightarrow> (\<exists>c'. r = Inr c')))"

definition endsWithBlankLine :: "string \<Rightarrow> bool" where
  "endsWithBlankLine out =
     (out \<noteq> [] \<and> last out = CHR 0x0A
      \<and> list_all (\<lambda>ch. ch = CHR '' '')
           (takeWhile (\<lambda>ch. ch \<noteq> CHR 0x0A) (rev (butlast out))))"

text \<open>
  The local declaration rule in the spec's words, to compare with \<open>convertDeclStmt\<close>.
  \<open>nameLine\<close> is the line of one declared name, from its type annotation and its
  initializer when they are there: \<open><type> <name> = <init>\<close>, \<open><type> <name>\<close>,
  \<open><name> = <init>\<close>, or no line. \<open>valueSpecLines\<close> collects the lines of the names of
  one spec, the initializer of a name being the value at the name's position;
  \<open>declLines\<close> collects them over the specs of a declaration (a spec that declares no
  values has none). \<open>writelns\<close> writes lines in order, each with \<open>writeln\<close>.
  \<open>annotated\<close> holds of a spec whose type annotation, when present, is not the empty
  identifier.
\<close>

fun nameLine :: "expr option \<Rightarrow> string \<Rightarrow> expr option \<Rightarrow> string list" where
  "nameLine (Some t) name (Some v) = [convertType t @ '' '' @ name @ '' = '' @ convertExpr v]"
| "nameLine (Some t) name None = [convertType t @ '' '' @ name]"
| "nameLine None name (Some v) = [name @ '' = '' @ convertExpr v]"
| "nameLine None name None = []"

definition valueSpecLines :: "expr option \<Rightarrow> expr list \<Rightarrow> nat \<Rightarrow> string list \<Rightarrow> string list"
where
  "valueSpecLines typ vals i names =
     concat (map (\<lambda>(k, name). nameLine typ name (if k < length vals then Some (vals ! k) else None))
               (enumerate i names))"

fun specLines :: "spec \<Rightarrow> string list" where
  "specLines (ValueSpec names typ vals) = valueSpecLines typ vals 0 names"
| "specLines _ = []"

definition declLines :: "spec list \<Rightarrow> string list" where
  "declLines specs = concat (map specLines specs)"

fun writelns :: "ScarConverter \<Rightarrow> string list \<Rightarrow> panic + ScarConverter" where
  "writelns c [] = Inr c"
| "writelns c (l # ls) = (case writeln c l of Inl e \<Rightarrow> Inl e | Inr c' \<Rightarrow> writelns c' ls)"

fun annotated :: "spec \<Rightarrow> bool" where
  "annotated (ValueSpec names (Some t) vals) = (t \<noteq> Ident [])"
| "annotated _ = True"

section \<open>Every emitter appends lines and restores the depth\<close>

lemma lines_append: "lines a \<Longrightarrow> lines b \<Longrightarrow> lines (a @ b)"
  by (cases "b = []") (auto simp: lines_def)

lemma emits_Inr: "emits c (Inr c)"
  by (auto simp: emits_def lines_def intro: exI[of _ "[]"])

lemma emits_writeln: "emits c (writeln c s)"
  by (auto simp: emits_def writeln_def indent_def Repeat_def lines_def)

lemma emits_bind:
  assumes "emits c r" and "\<And>c1. r = Inr c1 \<Longrightarrow> emits c1 (f c1)"
  shows "emits c (case r of Inl e \<Rightarrow> Inl e | Inr c1 \<Rightarrow> f c1)"
proof (cases r)
  case (Inl e)
  with assms(1) show ?thesis by (simp add: emits_def)
next
  case (Inr c1)
  with assms(1) obtain t where t: "c1 = c\<lparr>output := output c @ t\<rparr>" "lines t"
    by (auto simp: emits_def)
  from assms(2)[OF Inr] have e1: "emits c1 (f c1)" .
  show ?thesis
    unfolding emits_def
  proof (intro conjI allI impI)
    fix c' assume "(case r of Inl e \<Rightarrow> Inl e | Inr c1 \<Rightarrow> f c1) = Inr c'"
    with Inr have "f c1 = Inr c'" by simp
    with e1 obtain t' where t': "c' = c1\<lparr>output := output c1 @ t'\<rparr>" "lines t'"
      by (auto simp: emits_def)
    from t t' have "c' = c\<lparr>output := output c @ (t @ t')\<rparr>" by simp
    with lines_append[OF t(2) t'(2)]
    show "\<exists>t. c' = c\<lparr>output := output c @ t\<rparr> \<and> lines t" by blast
  next
    assume "0 \<le> indentLevel c"
    with t have "0 \<le> indentLevel c1" by simp
    with e1 obtain c' where "f c1 = Inr c'" by (auto simp: emits_def)
    with Inr show "\<exists>c'. (case r of Inl e \<Rightarrow> Inl e | Inr c1 \<Rightarrow> f c1) = Inr c'" by simp
  qed
qed

lemma emits_indent:
  assumes "emits (c\<lparr>indentLevel := indentLevel c + 1\<rparr>) r"
  shows "emits c (case r of Inl e \<Rightarrow> Inl e
                  | Inr c2 \<Rightarrow> Inr (c2\<lparr>indentLevel := indentLevel c2 - 1\<rparr>))"
proof (cases r)
  case (Inl e)
  with assms show ?thesis by (simp add: emits_def)
next
  case (Inr c2)
  with assms obtain t where
    t: "c2 = c\<lparr>indentLevel := indentLevel c + 1, output := output c @ t\<rparr>" "lines t"
    by (auto simp: emits_def)
  then have "c2\<lparr>indentLevel := indentLevel c2 - 1\<rparr> = c\<lparr>output := output c @ t\<rparr>"
    by simp
  with Inr t(2) show ?thesis by (auto simp: emits_def)
qed


lemma emits_convertAssignStmt: "emits c (convertAssignStmt c lhs tok rhs)"
  by (simp add: convertAssignStmt_def Let_def emits_writeln emits_Inr)

lemma emits_convertValueSpec: "emits c (convertValueSpec c typ vals i names)"
proof (induction names arbitrary: c i)
  case Nil
  show ?case by (simp add: emits_Inr)
next
  case (Cons name names)
  show ?case
    unfolding convertValueSpec.simps Let_def
    by (rule emits_bind) (simp_all add: emits_writeln emits_Inr Cons.IH)
qed

lemma emits_convertValueSpecs: "emits c (convertValueSpecs c specs)"
proof (induction specs arbitrary: c)
  case Nil
  show ?case by (simp add: emits_Inr)
next
  case (Cons sp specs)
  show ?case
    unfolding convertValueSpecs.simps
    by (rule emits_bind) (simp_all add: emits_convertValueSpec emits_Inr Cons.IH split: spec.split)
qed

lemma emits_convertDeclStmt: "emits c (convertDeclStmt c d)"
  by (simp add: convertDeclStmt_def emits_convertValueSpecs split: gen_decl.split)

lemma emits_convertReturnStmt: "emits c (convertReturnStmt c results)"
  by (simp add: convertReturnStmt_def emits_writeln)

lemma emits_convertIncDecStmt: "emits c (convertIncDecStmt c x tok)"
  by (simp add: convertIncDecStmt_def Let_def emits_writeln)

lemma emits_convertBranchStmt: "emits c (convertBranchStmt c tok)"
  by (simp add: convertBranchStmt_def emits_writeln emits_Inr)

lemmas emits_leaf = emits_writeln emits_Inr emits_convertAssignStmt emits_convertDeclStmt
  emits_convertReturnStmt emits_convertIncDecStmt emits_convertBranchStmt

lemma emits_stmt_all:
  shows "emits c (convertStmt c s)"
    and "emits c2 (convertIfStmt c2 init2 cond2 body2 els2)"
    and "emits c3 (convertElseIfStmt c3 init3 cond3 body3 els3)"
    and "emits c4 (convertForStmt c4 init4 cond4 post4 body4)"
    and "emits c5 (convertRangeStmt c5 key5 val5 x5 body5)"
    and "emits c6 (convertBlockStmt c6 list6)"
    and "emits c7 (convertSwitchStmt c7 init7 tag7 body7)"
    and "emits c8 (convertCaseClause c8 list8 body8)"
    and "\<exists>t. convertStmtToString c9 s9 = Inr (t, c9)"
proof (induct c s and c2 init2 cond2 body2 els2 and c3 init3 cond3 body3 els3
         and c4 init4 cond4 post4 body4 and c5 key5 val5 x5 body5 and c6 list6
         and c7 init7 tag7 body7 and c8 list8 body8 and c9 s9
       rule: convertStmt_convertIfStmt_convertElseIfStmt_convertForStmt_convertRangeStmt_convertBlockStmt_convertSwitchStmt_convertCaseClause_convertStmtToString.induct)
  case (15 c init cond body els)
  have start: "emits c (case init of None \<Rightarrow> Inr c | Some i \<Rightarrow> convertStmt c i)"
    by (cases init) (simp_all add: emits_Inr 15(1))
  show ?case
    unfolding convertIfStmt.simps
  proof (rule emits_bind[OF start], rule emits_bind[OF emits_writeln], rule emits_bind)
    fix c1 c2
    assume "(case init of None \<Rightarrow> Inr c | Some i \<Rightarrow> convertStmt c i) = Inr c1"
      and "writeln c1 (''if '' @ convertExpr cond @ '':'') = Inr c2"
    then show "emits c2 (case convertBlockStmt (c2\<lparr>indentLevel := indentLevel c2 + 1\<rparr>) body of
                           Inl e \<Rightarrow> Inl e
                         | Inr c3 \<Rightarrow> Inr (c3\<lparr>indentLevel := indentLevel c3 - 1\<rparr>))"
      by (intro emits_indent 15(2))
  next
    fix c1 c2 c4
    assume pre: "(case init of None \<Rightarrow> Inr c | Some i \<Rightarrow> convertStmt c i) = Inr c1"
      "writeln c1 (''if '' @ convertExpr cond @ '':'') = Inr c2"
      "(case convertBlockStmt (c2\<lparr>indentLevel := indentLevel c2 + 1\<rparr>) body of
          Inl e \<Rightarrow> Inl e
        | Inr c3 \<Rightarrow> Inr (c3\<lparr>indentLevel := indentLevel c3 - 1\<rparr>)) = Inr c4"
    show "emits c4 (case els of
             None \<Rightarrow> Inr c4
           | Some (IfStmt init' cond' body' els') \<Rightarrow> convertElseIfStmt c4 init' cond' body' els'
           | Some (BlockStmt elseBlock) \<Rightarrow>
               (case writeln c4 ''else:'' of
                  Inl e \<Rightarrow> Inl e
                | Inr c5 \<Rightarrow>
               (case convertBlockStmt (c5\<lparr>indentLevel := indentLevel c5 + 1\<rparr>) elseBlock of
                  Inl e \<Rightarrow> Inl e
                | Inr c6 \<Rightarrow> Inr (c6\<lparr>indentLevel := indentLevel c6 - 1\<rparr>)))
           | Some _ \<Rightarrow> Inr c4)"
    proof (cases els)
      case None
      then show ?thesis by (simp add: emits_Inr)
    next
      case (Some x2)
      show ?thesis
      proof (cases x2)
        case (IfStmt i' cnd' b' e')
        from 15(3)[OF pre Some IfStmt] show ?thesis
          unfolding Some IfStmt by simp
      next
        case (BlockStmt blk)
        have "emits c4 (case writeln c4 ''else:'' of
                  Inl e \<Rightarrow> Inl e
                | Inr c5 \<Rightarrow>
               (case convertBlockStmt (c5\<lparr>indentLevel := indentLevel c5 + 1\<rparr>) blk of
                  Inl e \<Rightarrow> Inl e
                | Inr c6 \<Rightarrow> Inr (c6\<lparr>indentLevel := indentLevel c6 - 1\<rparr>)))"
          by (rule emits_bind[OF emits_writeln], rule emits_indent)
             (rule 15(4)[OF pre Some BlockStmt])
        then show ?thesis unfolding Some BlockStmt by simp
      qed (simp_all add: Some emits_Inr)
    qed
  qed
next
  case (16 c init cond body els)
  have start: "emits c (case init of None \<Rightarrow> Inr c | Some i \<Rightarrow> convertStmt c i)"
    by (cases init) (simp_all add: emits_Inr 16(1))
  show ?case
  proof (subst convertElseIfStmt.simps, rule emits_bind[OF start],
      rule emits_bind[OF emits_writeln], rule emits_bind)
    fix c1 c2
    assume "(case init of None \<Rightarrow> Inr c | Some i \<Rightarrow> convertStmt c i) = Inr c1"
      and "writeln c1 (''elif '' @ convertExpr cond @ '':'') = Inr c2"
    then show "emits c2 (case convertBlockStmt (c2\<lparr>indentLevel := indentLevel c2 + 1\<rparr>) body of
                           Inl e \<Rightarrow> Inl e
                         | Inr c3 \<Rightarrow> Inr (c3\<lparr>indentLevel := indentLevel c3 - 1\<rparr>))"
      by (intro emits_indent 16(2))
  next
    fix c1 c2 c4
    assume pre: "(case init of None \<Rightarrow> Inr c | Some i \<Rightarrow> convertStmt c i) = Inr c1"
      "writeln c1 (''elif '' @ convertExpr cond @ '':'') = Inr c2"
      "(case convertBlockStmt (c2\<lparr>indentLevel := indentLevel c2 + 1\<rparr>) body of
          Inl e \<Rightarrow> Inl e
        | Inr c3 \<Rightarrow> Inr (c3\<lparr>indentLevel := indentLevel c3 - 1\<rparr>)) = Inr c4"
    show "emits c4 (case els of
             None \<Rightarrow> Inr c4
           | Some (IfStmt init' cond' body' els') \<Rightarrow> convertElseIfStmt c4 init' cond' body' els'
           | Some (BlockStmt elseBlock) \<Rightarrow>
               (case writeln c4 ''else:'' of
                  Inl e \<Rightarrow> Inl e
                | Inr c5 \<Rightarrow>
               (case convertBlockStmt (c5\<lparr>indentLevel := indentLevel c5 + 1\<rparr>) elseBlock of
                  Inl e \<Rightarrow> Inl e
                | Inr c6 \<Rightarrow> Inr (c6\<lparr>indentLevel := indentLevel c6 - 1\<rparr>)))
           | Some _ \<Rightarrow> Inr c4)"
    proof (cases els)
      case None
      then show ?thesis by (simp add: emits_Inr)
    next
      case (Some x2)
      show ?thesis
      proof (cases x2)
        case (IfStmt i' cnd' b' e')
        from 16(3)[OF pre Some IfStmt] show ?thesis
          unfolding Some IfStmt by simp
      next
        case (BlockStmt blk)
        have "emits c4 (case writeln c4 ''else:'' of
                  Inl e \<Rightarrow> Inl e
                | Inr c5 \<Rightarrow>
               (case convertBlockStmt (c5\<lparr>indentLevel := indentLevel c5 + 1\<rparr>) blk of
                  Inl e \<Rightarrow> Inl e
                | Inr c6 \<Rightarrow> Inr (c6\<lparr>indentLevel := indentLevel c6 - 1\<rparr>)))"
          by (rule emits_bind[OF emits_writeln], rule emits_indent)
             (rule 16(4)[OF pre Some BlockStmt])
        then show ?thesis unfolding Some BlockStmt by simp
      qed (simp_all add: Some emits_Inr)
    qed
  qed
next
  case (17 c init cond post body)
  have whileLoop: "emits c (case cond of
                         Some cnd \<Rightarrow> writeln c (''while '' @ convertExpr cnd @ '':'')
                       | None \<Rightarrow> writeln c ''while true:'')"
    by (cases cond) (simp_all add: emits_writeln)
  have classic: "emits c (case convertStmtToString c i of
                 Inl e \<Rightarrow> Inl e
               | Inr (s1, c1) \<Rightarrow>
                (case convertStmtToString c1 p of
                    Inl e \<Rightarrow> Inl e
                  | Inr (s2, c2) \<Rightarrow>
                  if length (Split (TrimSpace s1) CHR '' '') \<ge> 3 then
                       writeln c2 (''for '' @ Split (TrimSpace s1) CHR '' '' ! (length (Split (TrimSpace s1) CHR '' '') - 3)
                           @ ''; '' @ convertExpr cnd @ ''; '' @ TrimSpace s2 @ '':'')
                     else writeln c2 (''while '' @ convertExpr cnd @ '':'')))"
    if "init = Some i" "cond = Some cnd" "post = Some p" for i cnd p
  proof -
    from 17(1)[OF refl that] obtain t1 where t1: "convertStmtToString c i = Inr (t1, c)"
      by blast
    from 17(2)[OF refl that t1 refl refl refl] obtain t2
      where t2: "convertStmtToString c p = Inr (t2, c)"
      by blast
    show ?thesis by (simp add: t1 t2 emits_writeln)
  qed
  show ?case
    unfolding convertForStmt.simps Let_def
  proof (rule emits_bind)
    show "emits c (case init of
                 None \<Rightarrow> (case cond of
                         Some cnd \<Rightarrow> writeln c (''while '' @ convertExpr cnd @ '':'')
                       | None \<Rightarrow> writeln c ''while true:'')
               | Some i \<Rightarrow>
              (case cond of
                 None \<Rightarrow> (case cond of
                         Some cnd \<Rightarrow> writeln c (''while '' @ convertExpr cnd @ '':'')
                       | None \<Rightarrow> writeln c ''while true:'')
               | Some cnd \<Rightarrow>
              (case post of
                 None \<Rightarrow> (case cond of
                         Some cnd \<Rightarrow> writeln c (''while '' @ convertExpr cnd @ '':'')
                       | None \<Rightarrow> writeln c ''while true:'')
               | Some p \<Rightarrow>
              (case convertStmtToString c i of
                 Inl e \<Rightarrow> Inl e
               | Inr (s1, c1) \<Rightarrow>
                (case convertStmtToString c1 p of
                    Inl e \<Rightarrow> Inl e
                  | Inr (s2, c2) \<Rightarrow>
                  if length (Split (TrimSpace s1) CHR '' '') \<ge> 3 then
                       writeln c2 (''for '' @ Split (TrimSpace s1) CHR '' '' ! (length (Split (TrimSpace s1) CHR '' '') - 3)
                           @ ''; '' @ convertExpr cnd @ ''; '' @ TrimSpace s2 @ '':'')
                     else writeln c2 (''while '' @ convertExpr cnd @ '':''))))))"
      using classic by (auto simp: emits_writeln split: option.split)
  next
    fix c1
    assume hdr: "(case init of
                 None \<Rightarrow> (case cond of
                         Some cnd \<Rightarrow> writeln c (''while '' @ convertExpr cnd @ '':'')
                       | None \<Rightarrow> writeln c ''while true:'')
               | Some i \<Rightarrow>
              (case cond of
                 None \<Rightarrow> (case cond of
                         Some cnd \<Rightarrow> writeln c (''while '' @ convertExpr cnd @ '':'')
                       | None \<Rightarrow> writeln c ''while true:'')
               | Some cnd \<Rightarrow>
              (case post of
                 None \<Rightarrow> (case cond of
                         Some cnd \<Rightarrow> writeln c (''while '' @ convertExpr cnd @ '':'')
                       | None \<Rightarrow> writeln c ''while true:'')
               | Some p \<Rightarrow>
              (case convertStmtToString c i of
                 Inl e \<Rightarrow> Inl e
               | Inr (s1, c1) \<Rightarrow>
                (case convertStmtToString c1 p of
                    Inl e \<Rightarrow> Inl e
                  | Inr (s2, c2) \<Rightarrow>
                  if length (Split (TrimSpace s1) CHR '' '') \<ge> 3 then
                       writeln c2 (''for '' @ Split (TrimSpace s1) CHR '' '' ! (length (Split (TrimSpace s1) CHR '' '') - 3)
                           @ ''; '' @ convertExpr cnd @ ''; '' @ TrimSpace s2 @ '':'')
                     else writeln c2 (''while '' @ convertExpr cnd @ '':'')))))) = Inr c1"
    show "emits c1 (case convertBlockStmt (c1\<lparr>indentLevel := indentLevel c1 + 1\<rparr>) body of
           Inl e \<Rightarrow> Inl e
         | Inr c4 \<Rightarrow> Inr (c4\<lparr>indentLevel := indentLevel c4 - 1\<rparr>))"
      by (rule emits_indent) (rule 17(3)[OF refl, unfolded Let_def, OF hdr])
  qed
next
  case (18 c key val x body)
  show ?case
    unfolding convertRangeStmt.simps Let_def
  proof (rule emits_bind)
    show "emits c (case key of
                 None \<Rightarrow> Inr c
               | Some k \<Rightarrow>
                   (case val of
                      Some v \<Rightarrow>
                        writeln c (''for '' @ convertExpr k @ '', '' @ convertExpr v @ '' in '' @ convertExpr x @ '':'')
                    | None \<Rightarrow> writeln c (''for '' @ convertExpr k @ '' in '' @ convertExpr x @ '':'')))"
      by (simp add: emits_writeln emits_Inr split: option.split)
  next
    fix c1
    assume hdr: "(case key of
                 None \<Rightarrow> Inr c
               | Some k \<Rightarrow>
                   (case val of
                      Some v \<Rightarrow>
                        writeln c (''for '' @ convertExpr k @ '', '' @ convertExpr v @ '' in '' @ convertExpr x @ '':'')
                    | None \<Rightarrow> writeln c (''for '' @ convertExpr k @ '' in '' @ convertExpr x @ '':''))) = Inr c1"
    show "emits c1 (case convertBlockStmt (c1\<lparr>indentLevel := indentLevel c1 + 1\<rparr>) body of
           Inl e \<Rightarrow> Inl e
         | Inr c2 \<Rightarrow> Inr (c2\<lparr>indentLevel := indentLevel c2 - 1\<rparr>))"
      by (rule emits_indent) (rule 18[OF refl hdr])
  qed
next
  case (19 c)
  show ?case by (simp add: emits_Inr)
next
  case (20 c s list)
  show ?case
    unfolding convertBlockStmt.simps
    by (rule emits_bind[OF 20(1)]) (rule 20(2))
next
  case (21 c init tag body)
  have start: "emits c (case init of None \<Rightarrow> Inr c | Some i \<Rightarrow> convertStmt c i)"
    by (cases init) (simp_all add: emits_Inr 21(1))
  show ?case
    unfolding convertSwitchStmt.simps
  proof (rule emits_bind[OF start], rule emits_bind)
    fix c1
    show "emits c1 (case tag of
              Some t \<Rightarrow> writeln c1 (''switch '' @ convertExpr t @ '':'')
            | None \<Rightarrow> writeln c1 ''switch:'')"
      by (cases tag) (simp_all add: emits_writeln)
  next
    fix c1 c2
    assume "(case init of None \<Rightarrow> Inr c | Some i \<Rightarrow> convertStmt c i) = Inr c1"
      and "(case tag of
              Some t \<Rightarrow> writeln c1 (''switch '' @ convertExpr t @ '':'')
            | None \<Rightarrow> writeln c1 ''switch:'') = Inr c2"
    then show "emits c2 (case convertBlockStmt (c2\<lparr>indentLevel := indentLevel c2 + 1\<rparr>) body of
        Inl e \<Rightarrow> Inl e
      | Inr c3 \<Rightarrow> Inr (c3\<lparr>indentLevel := indentLevel c3 - 1\<rparr>))"
      by (intro emits_indent 21(2))
  qed
next
  case (22 c list body)
  show ?case
    unfolding convertCaseClause.simps
  proof (rule emits_bind)
    show "emits c (if list = [] then writeln c ''default:''
            else writeln c (''case '' @ Join (map convertExpr list) '', '' @ '':''))"
      by (simp add: emits_writeln)
  next
    fix c1
    assume "(if list = [] then writeln c ''default:''
            else writeln c (''case '' @ Join (map convertExpr list) '', '' @ '':'')) = Inr c1"
    then show "emits c1 (case convertBlockStmt (c1\<lparr>indentLevel := indentLevel c1 + 1\<rparr>) body of
        Inl e \<Rightarrow> Inl e
      | Inr c2 \<Rightarrow> Inr (c2\<lparr>indentLevel := indentLevel c2 - 1\<rparr>))"
      by (intro emits_indent 22)
  qed
next
  case (23 c s)
  let ?c0 = "c\<lparr>output := [], indentLevel := 0\<rparr>"
  from 23[OF refl refl] have e: "emits ?c0 (convertStmt ?c0 s)" .
  then obtain c' where c': "convertStmt ?c0 s = Inr c'"
    by (auto simp: emits_def)
  with e obtain t where "c' = ?c0\<lparr>output := output ?c0 @ t\<rparr>"
    by (auto simp: emits_def)
  then have "c'\<lparr>output := output c, indentLevel := indentLevel c\<rparr> = c"
    by simp
  with c' show ?case
    by (simp add: convertStmtToString.simps)
qed (simp_all add: emits_leaf)


lemma emits_total:
  assumes "emits c r" and "0 \<le> indentLevel c"
  shows "\<exists>t. r = Inr (c\<lparr>output := output c @ t\<rparr>) \<and> lines t"
  using assms unfolding emits_def by blast

lemma emits_result:
  assumes "emits c r" and "r = Inr c'"
  shows "\<exists>t. c' = c\<lparr>output := output c @ t\<rparr> \<and> lines t"
  using assms unfolding emits_def by blast

lemma emits_indentLevel:
  assumes "emits c r" and "r = Inr c'"
  shows "indentLevel c' = indentLevel c"
  using emits_result[OF assms] by auto

lemma emits_structFieldNames: "emits c (structFieldNames c fieldType names)"
proof (induction names arbitrary: c)
  case Nil
  show ?case by (simp add: emits_Inr)
next
  case (Cons name names)
  show ?case
    unfolding structFieldNames.simps
    by (rule emits_bind[OF emits_writeln]) (rule Cons.IH)
qed

lemma emits_structFields: "emits c (structFields c flds)"
proof (induction flds arbitrary: c)
  case Nil
  show ?case by (simp add: emits_Inr)
next
  case (Cons fld flds)
  show ?case
    unfolding structFields.simps
    by (rule emits_bind[OF emits_structFieldNames]) (rule Cons.IH)
qed

lemma emits_interfaceMethods: "emits c (interfaceMethods c ms)"
proof (induction ms arbitrary: c)
  case Nil
  show ?case by (simp add: emits_Inr)
next
  case (Cons m ms)
  show ?case
    unfolding interfaceMethods.simps
    by (rule emits_bind)
       (simp_all add: emits_writeln emits_Inr Cons.IH Let_def split: list.split expr.split)
qed

lemma emits_convertTypeSpec: "emits c (convertTypeSpec c name ty)"
proof (cases ty)
  case (StructType Fields)
  have inner: "emits (c1\<lparr>indentLevel := indentLevel c1 + 1\<rparr>)
         (case Fields of
            Some (fld # flds) \<Rightarrow>
              (case writeln (c1\<lparr>indentLevel := indentLevel c1 + 1\<rparr>) ''init:'' of
                 Inl e \<Rightarrow> Inl e
               | Inr c2 \<Rightarrow>
              (case structFields (c2\<lparr>indentLevel := indentLevel c2 + 1\<rparr>) (fld # flds) of
                 Inl e \<Rightarrow> Inl e
               | Inr c3 \<Rightarrow> Inr (c3\<lparr>indentLevel := indentLevel c3 - 1\<rparr>)))
          | _ \<Rightarrow> writeln (c1\<lparr>indentLevel := indentLevel c1 + 1\<rparr>) ''init:'')" for c1
  proof (cases Fields)
    case None
    then show ?thesis by (simp add: emits_writeln)
  next
    case (Some fl)
    show ?thesis
    proof (cases fl)
      case Nil
      with Some show ?thesis by (simp add: emits_writeln)
    next
      case (Cons fld flds)
      have "emits (c1\<lparr>indentLevel := indentLevel c1 + 1\<rparr>)
              (case writeln (c1\<lparr>indentLevel := indentLevel c1 + 1\<rparr>) ''init:'' of
                 Inl e \<Rightarrow> Inl e
               | Inr c2 \<Rightarrow>
              (case structFields (c2\<lparr>indentLevel := indentLevel c2 + 1\<rparr>) (fld # flds) of
                 Inl e \<Rightarrow> Inl e
               | Inr c3 \<Rightarrow> Inr (c3\<lparr>indentLevel := indentLevel c3 - 1\<rparr>)))"
        by (rule emits_bind[OF emits_writeln], rule emits_indent, rule emits_structFields)
      with Some Cons show ?thesis by simp
    qed
  qed
  show ?thesis
    unfolding StructType convertTypeSpec.simps
    by (rule emits_bind[OF emits_writeln], rule emits_bind, rule emits_indent, rule inner,
        rule emits_writeln)
next
  case (InterfaceType Methods)
  have inner: "emits (c1\<lparr>indentLevel := indentLevel c1 + 1\<rparr>)
         (case Methods of
            Some methods \<Rightarrow>
              interfaceMethods (c1\<lparr>indentLevel := indentLevel c1 + 1\<rparr>) methods
          | None \<Rightarrow> Inr (c1\<lparr>indentLevel := indentLevel c1 + 1\<rparr>))" for c1
    by (cases Methods) (simp_all add: emits_Inr emits_interfaceMethods)
  show ?thesis
    unfolding InterfaceType convertTypeSpec.simps
    by (rule emits_bind[OF emits_writeln], rule emits_bind, rule emits_indent, rule inner,
        rule emits_writeln)
qed (simp_all add: emits_Inr)

lemma emits_convertTypeSpecs: "emits c (convertTypeSpecs c specs)"
proof (induction specs arbitrary: c)
  case Nil
  show ?case by (simp add: emits_Inr)
next
  case (Cons sp specs)
  show ?case
    unfolding convertTypeSpecs.simps
    by (rule emits_bind) (simp_all add: emits_convertTypeSpec emits_Inr Cons.IH split: spec.split)
qed

text \<open>The header and the body of a function that is not the flattened \<open>main\<close>.\<close>

lemma emits_body:
  "emits c1 (case Body of
               Some body \<Rightarrow>
                 (case convertBlockStmt (c1\<lparr>indentLevel := indentLevel c1 + 1\<rparr>) body of
                    Inl e \<Rightarrow> Inl e
                  | Inr c2 \<Rightarrow> Inr (c2\<lparr>indentLevel := indentLevel c2 - 1\<rparr>))
             | None \<Rightarrow> Inr c1)"
  by (cases Body) (simp_all add: emits_Inr emits_indent emits_stmt_all(6))

lemma emits_convertFuncDecl: "emits c (convertFuncDecl c fd)"
proof (cases fd)
  case (FuncDecl Recv Name Params Results Body)
  show ?thesis
  proof (cases "Name = ''main'' \<and> Recv = None")
    case True
    then show ?thesis
      unfolding FuncDecl by (cases Body) (simp_all add: emits_Inr emits_stmt_all(6))
  next
    case False
    then show ?thesis
      unfolding FuncDecl convertFuncDecl.simps Let_def if_cancel
      by (simp only: if_False)
         (rule emits_bind[OF emits_writeln], rule emits_bind[OF emits_body], rule emits_writeln)
  qed
qed

lemma emits_processDecl: "emits c (processDecl c d)"
proof (cases d)
  case (FuncDecl_decl fd)
  then show ?thesis by (simp add: emits_convertFuncDecl)
next
  case (GenDecl_decl gd)
  obtain tok specs where gd: "gd = GenDecl tok specs" by (cases gd)
  have "emits c (case convertValueSpecs c specs of Inl e \<Rightarrow> Inl e | Inr c' \<Rightarrow> writeln c' [])"
    by (rule emits_bind[OF emits_convertValueSpecs]) (rule emits_writeln)
  then show ?thesis
    unfolding GenDecl_decl gd by (simp add: emits_convertTypeSpecs emits_Inr)
qed

lemma emits_processDecls: "emits c (processDecls c decls)"
proof (induction decls arbitrary: c)
  case Nil
  show ?case by (simp add: emits_Inr)
next
  case (Cons d decls)
  show ?case
    unfolding processDecls.simps
    by (rule emits_bind[OF emits_processDecl]) (rule Cons.IH)
qed

lemma emits_writeImports: "emits c (writeImports c imps)"
proof (induction imps arbitrary: c)
  case Nil
  show ?case by (simp add: emits_Inr)
next
  case (Cons imp imps)
  show ?case
    unfolding writeImports.simps
    by (rule emits_bind[OF emits_writeln]) (rule Cons.IH)
qed

lemma indentLevel_convertImports [simp]:
  "indentLevel (convertImports c specs) = indentLevel c"
  by (induction c specs rule: convertImports.induct) (simp_all add: Let_def)

lemma indentLevel_processImports [simp]:
  "indentLevel (processImports c decls) = indentLevel c"
  by (induction c decls rule: processImports.induct) simp_all

lemma ConvertFile_total:
  assumes "0 \<le> indentLevel c"
  shows "\<exists>out c'. ConvertFile c Decls = Inr (out, c')"
proof -
  let ?c1 = "processImports c Decls"
  have "emits ?c1
          (case writeImports ?c1 (imports ?c1) of
             Inl e \<Rightarrow> Inl e
           | Inr c2 \<Rightarrow>
          (case (if length (imports c2) > 0 then writeln c2 [] else Inr c2) of
             Inl e \<Rightarrow> Inl e
           | Inr c3 \<Rightarrow> processDecls c3 Decls))"
    by (rule emits_bind[OF emits_writeImports], rule emits_bind)
       (simp_all add: emits_writeln emits_Inr emits_processDecls)
  from emits_total[OF this] assms obtain t where
    "(case writeImports ?c1 (imports ?c1) of
             Inl e \<Rightarrow> Inl e
           | Inr c2 \<Rightarrow>
          (case (if length (imports c2) > 0 then writeln c2 [] else Inr c2) of
             Inl e \<Rightarrow> Inl e
           | Inr c3 \<Rightarrow> processDecls c3 Decls)) = Inr (?c1\<lparr>output := output ?c1 @ t\<rparr>)"
    by auto
  then show ?thesis
    unfolding ConvertFile_def Let_def by (auto split: sum.splits)
qed


section \<open>Evaluation rules\<close>

lemmas emit_simps = writeln_def indent_def Repeat_def NewScarConverter_def
  convertIfStmt.simps convertElseIfStmt.simps convertForStmt.simps convertRangeStmt.simps
  convertSwitchStmt.simps convertCaseClause.simps convertStmtToString.simps
  convertAssignStmt_def convertDeclStmt_def convertReturnStmt_def convertIncDecStmt_def
  convertBranchStmt_def

lemmas trim_simps = TrimSpace_def asciiSpace_def spaceRune2_def spaceRune3_def

section \<open>Auxiliary facts\<close>

lemma writeln_Inr:
  assumes "0 \<le> indentLevel c"
  shows "writeln c s =
           Inr (c\<lparr>output := output c @ concat (replicate (nat (indentLevel c)) ''    '') @ s
                                  @ [CHR 0x0A]\<rparr>)"
  using assms by (simp add: writeln_def indent_def Repeat_def)

lemma indentation_spaces: "list_all (\<lambda>ch. ch = CHR '' '') (concat (replicate n ''    ''))"
  by (induction n) auto

lemma takeWhile_last_line:
  "list_all (\<lambda>ch. ch = CHR '' '') xs \<Longrightarrow>
     takeWhile (\<lambda>ch. ch \<noteq> CHR 0x0A) (rev xs @ CHR 0x0A # ys) = rev xs"
  by (induction xs arbitrary: ys rule: rev_induct) auto

lemma endsWithBlankLine_spaces:
  assumes "pre \<noteq> []" and "last pre = CHR 0x0A" and "list_all (\<lambda>ch. ch = CHR '' '') ind"
  shows "endsWithBlankLine (pre @ ind @ [CHR 0x0A])"
proof -
  from assms(1,2) have pre: "pre = butlast pre @ [CHR 0x0A]"
    using append_butlast_last_id[of pre] by simp
  have "rev (butlast (pre @ ind @ [CHR 0x0A])) = rev ind @ rev pre"
    by (simp add: butlast_append)
  also have "rev pre = CHR 0x0A # rev (butlast pre)"
    by (subst pre) simp
  finally have "takeWhile (\<lambda>ch. ch \<noteq> CHR 0x0A) (rev (butlast (pre @ ind @ [CHR 0x0A]))) = rev ind"
    using takeWhile_last_line[OF assms(3)] by simp
  then show ?thesis
    using assms(3) unfolding endsWithBlankLine_def by simp
qed

lemma endsWithBlankLine_append:
  assumes "pre \<noteq> []" and "last pre = CHR 0x0A"
  shows "endsWithBlankLine (pre @ concat (replicate n ''    '') @ [CHR 0x0A])"
  using endsWithBlankLine_spaces[OF assms indentation_spaces] .

lemma convertType_Nil: "convertType t = [] \<longleftrightarrow> t = Ident []"
  by (cases t) auto

lemma no_newline_in_indentation:
  "filter (\<lambda>ch. ch = CHR 0x0A) (concat (replicate n ''    '')) = []"
  by (induction n) auto

lemma writelns_append:
  "writelns c (xs @ ys) = (case writelns c xs of Inl e \<Rightarrow> Inl e | Inr c' \<Rightarrow> writelns c' ys)"
  by (induction xs arbitrary: c) (simp_all split: sum.split)

lemma writelns_Inr:
  assumes "0 \<le> indentLevel c"
  shows "writelns c ls =
           Inr (c\<lparr>output := output c
                  @ concat (map (\<lambda>l. concat (replicate (nat (indentLevel c)) ''    '') @ l
                                       @ [CHR 0x0A]) ls)\<rparr>)"
  using assms
proof (induction ls arbitrary: c)
  case Nil
  show ?case by simp
next
  case (Cons l ls)
  let ?c' = "c\<lparr>output := output c @ concat (replicate (nat (indentLevel c)) ''    '') @ l
                                  @ [CHR 0x0A]\<rparr>"
  have "0 \<le> indentLevel ?c'" using Cons.prems by simp
  from Cons.IH[OF this] writeln_Inr[OF Cons.prems, of l] show ?case
    by simp
qed

lemma convertValueSpec_lines:
  assumes "\<And>t. ty = Some t \<Longrightarrow> t \<noteq> Ident []"
  shows "convertValueSpec c ty vals i names = writelns c (valueSpecLines ty vals i names)"
proof (induction names arbitrary: c i)
  case Nil
  show ?case by (simp add: valueSpecLines_def)
next
  case (Cons name names)
  have rest: "valueSpecLines T vals i (name # names)
      = nameLine T name (if i < length vals then Some (vals ! i) else None)
        @ valueSpecLines T vals (Suc i) names" for T
    by (simp add: valueSpecLines_def)
  show ?case
  proof (cases ty)
    case None
    show ?thesis
      by (simp add: rest writelns_append None Let_def Cons.IH[unfolded None] split: sum.split)
  next
    case (Some t)
    with assms have "convertType t \<noteq> []"
      by (simp add: convertType_Nil)
    then show ?thesis
      by (simp add: rest writelns_append Some Let_def Cons.IH[unfolded Some] split: sum.split)
  qed
qed

lemma convertValueSpecs_lines:
  assumes "list_all annotated specs"
  shows "convertValueSpecs c specs = writelns c (declLines specs)"
  using assms
proof (induction specs arbitrary: c)
  case Nil
  show ?case by (simp add: declLines_def)
next
  case (Cons sp specs)
  from Cons.prems have tl: "list_all annotated specs" and hd: "annotated sp"
    by simp_all
  have step: "(case sp of
              ValueSpec names ty vals \<Rightarrow> convertValueSpec c ty vals 0 names
            | _ \<Rightarrow> Inr c) = writelns c (specLines sp)"
  proof (cases sp)
    case (ValueSpec names ty vals)
    with hd have "\<And>t. ty = Some t \<Longrightarrow> t \<noteq> Ident []"
      by auto
    from convertValueSpec_lines[OF this] show ?thesis
      by (simp add: ValueSpec)
  qed simp_all
  have "declLines (sp # specs) = specLines sp @ declLines specs"
    by (simp add: declLines_def)
  then show ?case
    unfolding convertValueSpecs.simps step
    by (simp add: writelns_append Cons.IH[OF tl] split: sum.split)
qed

section \<open>The claims\<close>

text \<open>
  C1. A method declaration is to show its receiver as a first parameter \<open>this <Type>\<close> in
  the \<open>fn\<close> header. \<open>convertFuncDecl\<close> builds that string and then writes the same
  header in both branches of its test on it: for the method
  \<open>func (p *Point) Get() int { return p.x }\<close> the header is \<open>fn Get() -> int:\<close>, without
  the receiver.
\<close>

theorem method_header_omits_receiver:
  "convertFuncDecl NewScarConverter
     (FuncDecl (Some [Field [''p''] (StarExpr (Ident ''Point''))]) ''Get'' (Some [])
        (Some [Field [] (Ident ''int'')])
        (Some [ReturnStmt [SelectorExpr (Ident ''p'') ''x'']]))
   = Inr (NewScarConverter\<lparr>output :=
            ''fn Get() -> int:'' @ [CHR 0x0A] @ ''    return p.x'' @ [CHR 0x0A] @ [CHR 0x0A]\<rparr>)"
  by (simp add: emit_simps paramStrings_def HasPrefix_def TrimPrefix_def)

text \<open>
  C2. A classic \<open>for\<close> with initializer, condition and post statement renders the
  initializer and the post statement to text, splits the trimmed initializer text on
  single spaces, and writes \<open>for <var>; <cond>; <post>:\<close> with the third piece from the
  end when there are at least three pieces, \<open>while <cond>:\<close> otherwise; the body follows
  one level deeper. The loop \<open>for i := 0; i < 10; i++ { sum += i }\<close> gives
  \<open>for i; i < 10; i = i + 1:\<close> and the line \<open>sum = sum + i\<close> indented once.
\<close>

theorem classic_for_header:
  "(\<exists>initText postText.
      convertStmtToString c init = Inr (initText, c)
      \<and> convertStmtToString c post = Inr (postText, c)
      \<and> convertStmt c (ForStmt (Some init) (Some cond) (Some post) body) =
          (case writeln c
                  (if length (Split (TrimSpace initText) CHR '' '') \<ge> 3
                   then ''for '' @ Split (TrimSpace initText) CHR '' ''
                                     ! (length (Split (TrimSpace initText) CHR '' '') - 3)
                        @ ''; '' @ convertExpr cond @ ''; '' @ TrimSpace postText @ '':''
                   else ''while '' @ convertExpr cond @ '':'') of
             Inl e \<Rightarrow> Inl e
           | Inr c1 \<Rightarrow>
          (case convertBlockStmt (c1\<lparr>indentLevel := indentLevel c1 + 1\<rparr>) body of
             Inl e \<Rightarrow> Inl e
           | Inr c2 \<Rightarrow> Inr (c2\<lparr>indentLevel := indentLevel c2 - 1\<rparr>))))
   \<and> convertStmt NewScarConverter
         (ForStmt (Some (AssignStmt [Ident ''i''] tok_DEFINE [BasicLit tok_INT ''0'']))
            (Some (BinaryExpr (Ident ''i'') tok_LSS (BasicLit tok_INT ''10'')))
            (Some (IncDecStmt (Ident ''i'') tok_INC))
            [AssignStmt [Ident ''sum''] tok_ADD_ASSIGN [Ident ''i'']])
       = Inr (NewScarConverter\<lparr>output :=
                ''for i; i < 10; i = i + 1:'' @ [CHR 0x0A] @ ''    sum = sum + i'' @ [CHR 0x0A]\<rparr>)"
proof (rule conjI)
  from emits_stmt_all(9) obtain initText where i: "convertStmtToString c init = Inr (initText, c)"
    by blast
  from emits_stmt_all(9) obtain postText where p: "convertStmtToString c post = Inr (postText, c)"
    by blast
  have eq: "convertStmt c (ForStmt (Some init) (Some cond) (Some post) body) =
          (case writeln c
                  (if length (Split (TrimSpace initText) CHR '' '') \<ge> 3
                   then ''for '' @ Split (TrimSpace initText) CHR '' ''
                                     ! (length (Split (TrimSpace initText) CHR '' '') - 3)
                        @ ''; '' @ convertExpr cond @ ''; '' @ TrimSpace postText @ '':''
                   else ''while '' @ convertExpr cond @ '':'') of
             Inl e \<Rightarrow> Inl e
           | Inr c1 \<Rightarrow>
          (case convertBlockStmt (c1\<lparr>indentLevel := indentLevel c1 + 1\<rparr>) body of
             Inl e \<Rightarrow> Inl e
           | Inr c2 \<Rightarrow> Inr (c2\<lparr>indentLevel := indentLevel c2 - 1\<rparr>)))"
    unfolding convertStmt.simps convertForStmt.simps Let_def option.case i p sum.case prod.case
    by (rule arg_cong[where f = "case_sum Inl _"]) simp
  show "\<exists>initText postText.
      convertStmtToString c init = Inr (initText, c)
      \<and> convertStmtToString c post = Inr (postText, c)
      \<and> convertStmt c (ForStmt (Some init) (Some cond) (Some post) body) =
          (case writeln c
                  (if length (Split (TrimSpace initText) CHR '' '') \<ge> 3
                   then ''for '' @ Split (TrimSpace initText) CHR '' ''
                                     ! (length (Split (TrimSpace initText) CHR '' '') - 3)
                        @ ''; '' @ convertExpr cond @ ''; '' @ TrimSpace postText @ '':''
                   else ''while '' @ convertExpr cond @ '':'') of
             Inl e \<Rightarrow> Inl e
           | Inr c1 \<Rightarrow>
          (case convertBlockStmt (c1\<lparr>indentLevel := indentLevel c1 + 1\<rparr>) body of
             Inl e \<Rightarrow> Inl e
           | Inr c2 \<Rightarrow> Inr (c2\<lparr>indentLevel := indentLevel c2 - 1\<rparr>)))"
    by (intro exI[of _ initText] exI[of _ postText] conjI i p eq)
next
  show "convertStmt NewScarConverter
         (ForStmt (Some (AssignStmt [Ident ''i''] tok_DEFINE [BasicLit tok_INT ''0'']))
            (Some (BinaryExpr (Ident ''i'') tok_LSS (BasicLit tok_INT ''10'')))
            (Some (IncDecStmt (Ident ''i'') tok_INC))
            [AssignStmt [Ident ''sum''] tok_ADD_ASSIGN [Ident ''i'']])
       = Inr (NewScarConverter\<lparr>output :=
                ''for i; i < 10; i = i + 1:'' @ [CHR 0x0A] @ ''    sum = sum + i'' @ [CHR 0x0A]\<rparr>)"
    by (simp add: emit_simps trim_simps)
qed

text \<open>
  C3. Emitting a statement or a declaration leaves the indentation depth as it found
  it: whenever \<open>convertStmt\<close>, \<open>convertFuncDecl\<close>, \<open>convertTypeSpec\<close> or the declaration
  step of \<open>ConvertFile\<close> returns a state, its depth is the depth at entry, and from a
  depth that is not negative each of them does return a state. \<open>convertStmtToString\<close>
  always returns, with the state it was given: the buffer and the depth are restored.
\<close>

theorem indentation_restored:
  "(convertStmt c s = Inr c1 \<longrightarrow> indentLevel c1 = indentLevel c)
   \<and> (convertStmtToString c s = Inr (txt, c2)
        \<longrightarrow> output c2 = output c \<and> indentLevel c2 = indentLevel c)
   \<and> (convertFuncDecl c fd = Inr c3 \<longrightarrow> indentLevel c3 = indentLevel c)
   \<and> (convertTypeSpec c name ty = Inr c4 \<longrightarrow> indentLevel c4 = indentLevel c)
   \<and> (processDecl c d = Inr c5 \<longrightarrow> indentLevel c5 = indentLevel c)
   \<and> (0 \<le> indentLevel c \<longrightarrow>
         (\<exists>c'. convertStmt c s = Inr c') \<and> (\<exists>c'. convertFuncDecl c fd = Inr c')
         \<and> (\<exists>c'. convertTypeSpec c name ty = Inr c') \<and> (\<exists>c'. processDecl c d = Inr c'))
   \<and> (\<exists>txt'. convertStmtToString c s = Inr (txt', c))"
proof (intro conjI impI)
  assume "convertStmt c s = Inr c1"
  then show "indentLevel c1 = indentLevel c"
    by (rule emits_indentLevel[OF emits_stmt_all(1)])
next
  assume r: "convertStmtToString c s = Inr (txt, c2)"
  from emits_stmt_all(9) obtain t where "convertStmtToString c s = Inr (t, c)"
    by blast
  with r have "c2 = c" by simp
  then show "output c2 = output c" and "indentLevel c2 = indentLevel c"
    by simp_all
next
  assume "convertFuncDecl c fd = Inr c3"
  then show "indentLevel c3 = indentLevel c"
    by (rule emits_indentLevel[OF emits_convertFuncDecl])
next
  assume "convertTypeSpec c name ty = Inr c4"
  then show "indentLevel c4 = indentLevel c"
    by (rule emits_indentLevel[OF emits_convertTypeSpec])
next
  assume "processDecl c d = Inr c5"
  then show "indentLevel c5 = indentLevel c"
    by (rule emits_indentLevel[OF emits_processDecl])
next
  assume nn: "0 \<le> indentLevel c"
  from emits_total[OF emits_stmt_all(1) nn] show "\<exists>c'. convertStmt c s = Inr c'"
    by blast
  from emits_total[OF emits_convertFuncDecl nn] show "\<exists>c'. convertFuncDecl c fd = Inr c'"
    by blast
  from emits_total[OF emits_convertTypeSpec nn] show "\<exists>c'. convertTypeSpec c name ty = Inr c'"
    by blast
  from emits_total[OF emits_processDecl nn] show "\<exists>c'. processDecl c d = Inr c'"
    by blast
next
  show "\<exists>txt'. convertStmtToString c s = Inr (txt', c)"
    by (rule emits_stmt_all(9))
qed

theorem indentation_restored_witness:
  "convertStmt NewScarConverter
      (IfStmt None (BinaryExpr (Ident ''err'') tok_NEQ (Ident ''nil''))
         [ReturnStmt [Ident ''err'']] (Some (BlockStmt [ReturnStmt [Ident ''nil'']])))
     = Inr (NewScarConverter\<lparr>output :=
              ''if err != nil:'' @ [CHR 0x0A] @ ''    return err'' @ [CHR 0x0A]
              @ ''else:'' @ [CHR 0x0A] @ ''    return nil'' @ [CHR 0x0A]\<rparr>)
   \<and> indentLevel (NewScarConverter\<lparr>output :=
              ''if err != nil:'' @ [CHR 0x0A] @ ''    return err'' @ [CHR 0x0A]
              @ ''else:'' @ [CHR 0x0A] @ ''    return nil'' @ [CHR 0x0A]\<rparr>)
       = indentLevel NewScarConverter
   \<and> convertStmtToString NewScarConverter
      (IfStmt None (BinaryExpr (Ident ''err'') tok_NEQ (Ident ''nil''))
         [ReturnStmt [Ident ''err'']] (Some (BlockStmt [ReturnStmt [Ident ''nil'']])))
     = Inr (''if err != nil:'' @ [CHR 0x0A] @ ''    return err'' @ [CHR 0x0A]
              @ ''else:'' @ [CHR 0x0A] @ ''    return nil'', NewScarConverter)
   \<and> convertFuncDecl NewScarConverter
        (FuncDecl None ''f'' (Some [Field [''a''] (Ident ''int'')]) None
           (Some [ExprStmt (CallExpr (Ident ''g'') [Ident ''a''])]))
     = Inr (NewScarConverter\<lparr>output :=
              ''fn f(int a):'' @ [CHR 0x0A] @ ''    g(a)'' @ [CHR 0x0A] @ [CHR 0x0A]\<rparr>)
   \<and> convertTypeSpec NewScarConverter ''Point''
        (StructType (Some [Field [''x''] (Ident ''int'')]))
     = Inr (NewScarConverter\<lparr>output :=
              ''class Point:'' @ [CHR 0x0A] @ ''    init:'' @ [CHR 0x0A]
              @ ''        int this.x'' @ [CHR 0x0A] @ [CHR 0x0A]\<rparr>)
   \<and> processDecl NewScarConverter
        (GenDecl_decl (GenDecl tok_VAR
           [ValueSpec [''n''] (Some (Ident ''int'')) [BasicLit tok_INT ''5'']]))
     = Inr (NewScarConverter\<lparr>output := ''int n = 5'' @ [CHR 0x0A] @ [CHR 0x0A]\<rparr>)
   \<and> 0 \<le> indentLevel NewScarConverter"
  using indentation_restored
    [of NewScarConverter
        "IfStmt None (BinaryExpr (Ident ''err'') tok_NEQ (Ident ''nil''))
           [ReturnStmt [Ident ''err'']] (Some (BlockStmt [ReturnStmt [Ident ''nil'']]))"
        "NewScarConverter\<lparr>output :=
              ''if err != nil:'' @ [CHR 0x0A] @ ''    return err'' @ [CHR 0x0A]
              @ ''else:'' @ [CHR 0x0A] @ ''    return nil'' @ [CHR 0x0A]\<rparr>"
        "''if err != nil:'' @ [CHR 0x0A] @ ''    return err'' @ [CHR 0x0A]
              @ ''else:'' @ [CHR 0x0A] @ ''    return nil''"
        NewScarConverter
        "FuncDecl None ''f'' (Some [Field [''a''] (Ident ''int'')]) None
           (Some [ExprStmt (CallExpr (Ident ''g'') [Ident ''a''])])"
        "NewScarConverter\<lparr>output :=
              ''fn f(int a):'' @ [CHR 0x0A] @ ''    g(a)'' @ [CHR 0x0A] @ [CHR 0x0A]\<rparr>"
        "''Point''" "StructType (Some [Field [''x''] (Ident ''int'')])"
        "NewScarConverter\<lparr>output :=
              ''class Point:'' @ [CHR 0x0A] @ ''    init:'' @ [CHR 0x0A]
              @ ''        int this.x'' @ [CHR 0x0A] @ [CHR 0x0A]\<rparr>"
        "GenDecl_decl (GenDecl tok_VAR
           [ValueSpec [''n''] (Some (Ident ''int'')) [BasicLit tok_INT ''5'']])"
        "NewScarConverter\<lparr>output := ''int n = 5'' @ [CHR 0x0A] @ [CHR 0x0A]\<rparr>"]
  by (simp add: emit_simps trim_simps paramStrings_def numeral_2_eq_2)

text \<open>
  C4. The import lookup gives \<open>std/crypto\<close> for \<open>crypto/md5\<close> and \<open>std/io\<close> for
  \<open>bufio\<close>, and the empty string for \<open>crypto/sha256\<close>, \<open>crypto/sha512\<close>,
  \<open>crypto/sha1\<close> and \<open>io\<close>, whose cases have no body; \<open>convertImports\<close> then records
  nothing for these four paths.
\<close>

theorem import_path_empty_cases:
  "convertImportPath ''crypto/md5'' = ''std/crypto''
   \<and> convertImportPath ''bufio'' = ''std/io''
   \<and> convertImportPath ''crypto/sha256'' = []
   \<and> convertImportPath ''crypto/sha512'' = []
   \<and> convertImportPath ''crypto/sha1'' = []
   \<and> convertImportPath ''io'' = []
   \<and> convertImports c
         [ImportSpec ([CHR 0x22] @ ''crypto/sha256'' @ [CHR 0x22]),
          ImportSpec ([CHR 0x22] @ ''crypto/sha512'' @ [CHR 0x22]),
          ImportSpec ([CHR 0x22] @ ''crypto/sha1'' @ [CHR 0x22]),
          ImportSpec ([CHR 0x22] @ ''io'' @ [CHR 0x22])] = c
   \<and> imports (convertImports NewScarConverter
         [ImportSpec ([CHR 0x22] @ ''crypto/md5'' @ [CHR 0x22]),
          ImportSpec ([CHR 0x22] @ ''io'' @ [CHR 0x22]),
          ImportSpec ([CHR 0x22] @ ''bufio'' @ [CHR 0x22])]) = [''std/crypto'', ''std/io'']"
  by (simp add: convertImportPath_def Trim_def NewScarConverter_def)

text \<open>
  C5. Not every function declaration ends with a blank line: the flattened \<open>main\<close>
  returns after its body and writes none. Every other function or method declaration,
  emitted from a depth that is not negative, appends its header and body (a text that
  ends a line) and then a last line that holds the indentation only.
\<close>

theorem blank_line_after_function:
  assumes "\<not> (Name = ''main'' \<and> Recv = None)" and "0 \<le> indentLevel c"
  shows "\<exists>pre. pre \<noteq> [] \<and> last pre = CHR 0x0A
           \<and> convertFuncDecl c (FuncDecl Recv Name Params Results Body)
               = Inr (c\<lparr>output := output c @ pre
                        @ concat (replicate (nat (indentLevel c)) ''    '') @ [CHR 0x0A]\<rparr>)
           \<and> endsWithBlankLine
                (pre @ concat (replicate (nat (indentLevel c)) ''    '') @ [CHR 0x0A])"
proof -
  let ?ind = "concat (replicate (nat (indentLevel c)) ''    '')"
  define hdr where "hdr = ''fn '' @ Name @ ''(''
      @ Join (case Params of Some fieldList \<Rightarrow> paramStrings fieldList | None \<Rightarrow> []) '', ''
      @ '')''
      @ (case Results of
           Some (r # rs) \<Rightarrow>
             (if length (r # rs) = 1 \<and> length (Names r) \<le> 1
              then '' -> '' @ convertType (Type r) else [])
         | _ \<Rightarrow> [])
      @ '':''"
  define c1 where "c1 = c\<lparr>output := output c @ ?ind @ hdr @ [CHR 0x0A]\<rparr>"
  have w1: "writeln c hdr = Inr c1"
    unfolding c1_def by (rule writeln_Inr[OF assms(2)])
  have nn1: "0 \<le> indentLevel c1"
    using assms(2) by (simp add: c1_def)
  from emits_total[OF emits_body nn1, of Body] obtain t where
    body: "(case Body of
               Some body \<Rightarrow>
                 (case convertBlockStmt (c1\<lparr>indentLevel := indentLevel c1 + 1\<rparr>) body of
                    Inl e \<Rightarrow> Inl e
                  | Inr c2 \<Rightarrow> Inr (c2\<lparr>indentLevel := indentLevel c2 - 1\<rparr>))
             | None \<Rightarrow> Inr c1) = Inr (c1\<lparr>output := output c1 @ t\<rparr>)"
    and t: "lines t"
    by blast
  let ?c3 = "c1\<lparr>output := output c1 @ t\<rparr>"
  have nn3: "0 \<le> indentLevel ?c3"
    using nn1 by simp
  have ind3: "indentLevel ?c3 = indentLevel c"
    by (simp add: c1_def)
  have w3: "writeln ?c3 [] = Inr (?c3\<lparr>output := output ?c3 @ ?ind @ [CHR 0x0A]\<rparr>)"
    using writeln_Inr[OF nn3, of "[]"] unfolding ind3 by simp
  let ?pre = "?ind @ hdr @ [CHR 0x0A] @ t"
  have "convertFuncDecl c (FuncDecl Recv Name Params Results Body)
          = (case writeln c hdr of
               Inl e \<Rightarrow> Inl e
             | Inr c1 \<Rightarrow>
            (case (case Body of
                     Some body \<Rightarrow>
                       (case convertBlockStmt (c1\<lparr>indentLevel := indentLevel c1 + 1\<rparr>) body of
                          Inl e \<Rightarrow> Inl e
                        | Inr c2 \<Rightarrow> Inr (c2\<lparr>indentLevel := indentLevel c2 - 1\<rparr>))
                   | None \<Rightarrow> Inr c1) of
               Inl e \<Rightarrow> Inl e
             | Inr c3 \<Rightarrow> writeln c3 []))"
    unfolding convertFuncDecl.simps Let_def hdr_def
    using assms(1) by (simp only: if_False if_cancel)
  also have "\<dots> = Inr (?c3\<lparr>output := output ?c3 @ ?ind @ [CHR 0x0A]\<rparr>)"
    by (simp only: w1 sum.case body w3)
  also have "?c3\<lparr>output := output ?c3 @ ?ind @ [CHR 0x0A]\<rparr>
          = c\<lparr>output := output c @ ?pre @ ?ind @ [CHR 0x0A]\<rparr>"
    by (simp add: c1_def)
  finally have run: "convertFuncDecl c (FuncDecl Recv Name Params Results Body)
          = Inr (c\<lparr>output := output c @ ?pre @ ?ind @ [CHR 0x0A]\<rparr>)" .
  have ne: "?pre \<noteq> []" by simp
  have la: "last ?pre = CHR 0x0A"
    using t by (cases "t = []") (simp_all add: lines_def)
  from run ne la endsWithBlankLine_append[OF ne la] show ?thesis
    by (intro exI[of _ ?pre] conjI)
qed

theorem blank_line_after_function_witness:
  "\<exists>pre. pre \<noteq> [] \<and> last pre = CHR 0x0A
     \<and> convertFuncDecl NewScarConverter
          (FuncDecl (Some [Field [''p''] (StarExpr (Ident ''Point''))]) ''Get'' (Some [])
             (Some [Field [] (Ident ''int'')])
             (Some [ReturnStmt [SelectorExpr (Ident ''p'') ''x'']]))
         = Inr (NewScarConverter\<lparr>output := pre @ [CHR 0x0A]\<rparr>)
     \<and> endsWithBlankLine (pre @ [CHR 0x0A])"
  using blank_line_after_function
    [of "''Get''" "Some [Field [''p''] (StarExpr (Ident ''Point''))]" NewScarConverter
        "Some []" "Some [Field [] (Ident ''int'')]"
        "Some [ReturnStmt [SelectorExpr (Ident ''p'') ''x'']]"]
  by (simp add: NewScarConverter_def)

text \<open>
  C5, as stated for every function declaration, fails on the flattened \<open>main\<close>: the text
  it appends ends with the line \<open>print "hi"\<close>, not with a blank line.
\<close>

theorem blank_line_after_main_counterexample:
  "convertFuncDecl NewScarConverter
     (FuncDecl None ''main'' (Some []) None
        (Some [ExprStmt (CallExpr (SelectorExpr (Ident ''fmt'') ''Println'')
                 [BasicLit tok_STRING ([CHR 0x22] @ ''hi'' @ [CHR 0x22])])]))
     = Inr (NewScarConverter\<lparr>output := ''print '' @ [CHR 0x22] @ ''hi'' @ [CHR 0x22, CHR 0x0A]\<rparr>)
   \<and> \<not> endsWithBlankLine (''print '' @ [CHR 0x22] @ ''hi'' @ [CHR 0x22, CHR 0x0A])"
  by (simp add: emit_simps endsWithBlankLine_def)

text \<open>
  C6. Statement emission is total: from a depth that is not negative, \<open>convertStmt\<close>
  returns a state for every statement, which is the state at entry with text appended
  to its output. A statement of a kind without a case of its own, and a type switch,
  append one comment line (indentation, the placeholder, one newline), and the depth is
  as before.
\<close>

theorem statement_emission_total:
  assumes "0 \<le> indentLevel c"
  shows "(\<exists>t. convertStmt c s = Inr (c\<lparr>output := output c @ t\<rparr>))
     \<and> convertStmt c OtherStmt
         = Inr (c\<lparr>output := output c @ concat (replicate (nat (indentLevel c)) ''    '')
                              @ ''# unknown statement'' @ [CHR 0x0A]\<rparr>)
     \<and> convertStmt c TypeSwitchStmt
         = Inr (c\<lparr>output := output c @ concat (replicate (nat (indentLevel c)) ''    '')
                              @ ''# type switch not supported */'' @ [CHR 0x0A]\<rparr>)
     \<and> length (filter (\<lambda>ch. ch = CHR 0x0A)
                 (concat (replicate (nat (indentLevel c)) ''    '')
                  @ ''# unknown statement'' @ [CHR 0x0A])) = 1
     \<and> length (filter (\<lambda>ch. ch = CHR 0x0A)
                 (concat (replicate (nat (indentLevel c)) ''    '')
                  @ ''# type switch not supported */'' @ [CHR 0x0A])) = 1"
proof (intro conjI)
  from emits_total[OF emits_stmt_all(1) assms]
  show "\<exists>t. convertStmt c s = Inr (c\<lparr>output := output c @ t\<rparr>)"
    by blast
qed (simp_all add: writeln_Inr[OF assms] no_newline_in_indentation)

theorem statement_emission_total_witness:
  "0 \<le> indentLevel NewScarConverter
   \<and> (\<exists>t. convertStmt NewScarConverter
            (SwitchStmt None (Some (Ident ''x''))
               [CaseClause [BasicLit tok_INT ''1''] [BranchStmt tok_BREAK], OtherStmt])
          = Inr (NewScarConverter\<lparr>output := output NewScarConverter @ t\<rparr>))
   \<and> convertStmt NewScarConverter OtherStmt
       = Inr (NewScarConverter\<lparr>output := ''# unknown statement'' @ [CHR 0x0A]\<rparr>)
   \<and> convertStmt NewScarConverter TypeSwitchStmt
       = Inr (NewScarConverter\<lparr>output := ''# type switch not supported */'' @ [CHR 0x0A]\<rparr>)"
  using statement_emission_total
    [of NewScarConverter
        "SwitchStmt None (Some (Ident ''x''))
           [CaseClause [BasicLit tok_INT ''1''] [BranchStmt tok_BREAK], OtherStmt]"]
  by (simp add: NewScarConverter_def)

text \<open>
  C7. A call of the selector \<open>fmt.Printf\<close> with at least one argument becomes
  \<open>print <format>\<close> when the format is the only argument, and
  \<open>print <format> | <arg1>, <arg2>, ...\<close> otherwise;
  \<open>fmt.Printf("%d-%s", n, s)\<close> becomes \<open>print "%d-%s" | n, s\<close>.
\<close>

theorem printf_call:
  "convertExpr (CallExpr (SelectorExpr (Ident ''fmt'') ''Printf'') [format])
     = ''print '' @ convertExpr format
   \<and> convertExpr (CallExpr (SelectorExpr (Ident ''fmt'') ''Printf'') (format # arg # args))
     = ''print '' @ convertExpr format @ '' | '' @ Join (map convertExpr (arg # args)) '', ''
   \<and> convertExpr (CallExpr (SelectorExpr (Ident ''fmt'') ''Printf'')
         [BasicLit tok_STRING ([CHR 0x22] @ ''%d-%s'' @ [CHR 0x22]), Ident ''n'', Ident ''s''])
     = ''print '' @ [CHR 0x22] @ ''%d-%s'' @ [CHR 0x22] @ '' | n, s''"
  by simp

text \<open>
  C8. A function named \<open>main\<close> without a receiver gets no header and no deeper
  indentation: its result is that of its body's statements, emitted in the state the
  declaration started in. A \<open>main\<close> holding only \<open>fmt.Println("hi")\<close> gives the one line
  \<open>print "hi"\<close>, also as the whole output of \<open>ConvertFile\<close>.
\<close>

theorem main_is_flattened:
  "convertFuncDecl c (FuncDecl None ''main'' params results (Some body)) = convertBlockStmt c body
   \<and> convertFuncDecl c (FuncDecl None ''main'' params results None) = Inr c
   \<and> convertFuncDecl NewScarConverter
        (FuncDecl None ''main'' (Some []) None
           (Some [ExprStmt (CallExpr (SelectorExpr (Ident ''fmt'') ''Println'')
                    [BasicLit tok_STRING ([CHR 0x22] @ ''hi'' @ [CHR 0x22])])]))
      = Inr (NewScarConverter\<lparr>output := ''print '' @ [CHR 0x22] @ ''hi'' @ [CHR 0x22, CHR 0x0A]\<rparr>)
   \<and> ConvertFile NewScarConverter
        [FuncDecl_decl (FuncDecl None ''main'' (Some []) None
           (Some [ExprStmt (CallExpr (SelectorExpr (Ident ''fmt'') ''Println'')
                    [BasicLit tok_STRING ([CHR 0x22] @ ''hi'' @ [CHR 0x22])])]))]
      = Inr (''print '' @ [CHR 0x22] @ ''hi'' @ [CHR 0x22, CHR 0x0A],
             NewScarConverter\<lparr>output := ''print '' @ [CHR 0x22] @ ''hi'' @ [CHR 0x22, CHR 0x0A]\<rparr>)"
  by (simp add: emit_simps ConvertFile_def)

text \<open>
  C9. A local declaration statement emits, for the names of its specs in order, the
  lines the rule gives: with a type annotation \<open><type> <name> = <init>\<close> when the name has
  an initializer and \<open><type> <name>\<close> when it has none; without a type annotation
  \<open><name> = <init>\<close> when it has an initializer and no line when it has none. This holds
  for every list of specs and names whose type annotations are not the empty identifier
  (which no parsed file holds); from a depth that is not negative the lines are appended
  to the output, each indented and ended by a newline. The four cases of a declaration
  of one name follow.
\<close>

theorem local_declaration_lines:
  assumes "list_all annotated specs" and "t \<noteq> Ident []"
  shows "convertStmt c (DeclStmt (GenDecl tok specs)) = writelns c (declLines specs)
     \<and> (0 \<le> indentLevel c \<longrightarrow>
          convertStmt c (DeclStmt (GenDecl tok specs))
            = Inr (c\<lparr>output := output c
                    @ concat (map (\<lambda>l. concat (replicate (nat (indentLevel c)) ''    '') @ l
                                         @ [CHR 0x0A]) (declLines specs))\<rparr>))
     \<and> convertStmt c (DeclStmt (GenDecl tok [ValueSpec [name] (Some t) (v # vs)]))
           = writeln c (convertType t @ '' '' @ name @ '' = '' @ convertExpr v)
     \<and> convertStmt c (DeclStmt (GenDecl tok [ValueSpec [name] (Some t) []]))
           = writeln c (convertType t @ '' '' @ name)
     \<and> convertStmt c (DeclStmt (GenDecl tok [ValueSpec [name] None (v # vs)]))
           = writeln c (name @ '' = '' @ convertExpr v)
     \<and> convertStmt c (DeclStmt (GenDecl tok [ValueSpec [name] None []])) = Inr c"
proof -
  have general: "convertStmt c (DeclStmt (GenDecl tok specs)) = writelns c (declLines specs)"
    by (simp add: convertDeclStmt_def convertValueSpecs_lines[OF assms(1)])
  from assms(2) have ty: "convertType t \<noteq> []"
    by (simp add: convertType_Nil)
  have single: "convertStmt c (DeclStmt (GenDecl tok [ValueSpec [name] (Some t) (v # vs)]))
           = writeln c (convertType t @ '' '' @ name @ '' = '' @ convertExpr v)
     \<and> convertStmt c (DeclStmt (GenDecl tok [ValueSpec [name] (Some t) []]))
           = writeln c (convertType t @ '' '' @ name)
     \<and> convertStmt c (DeclStmt (GenDecl tok [ValueSpec [name] None (v # vs)]))
           = writeln c (name @ '' = '' @ convertExpr v)
     \<and> convertStmt c (DeclStmt (GenDecl tok [ValueSpec [name] None []])) = Inr c"
    using ty by (simp add: convertDeclStmt_def Let_def split: sum.split)
  from general writelns_Inr[of c "declLines specs"] single show ?thesis
    by simp
qed

theorem local_declaration_lines_witness:
  "list_all annotated
     [ValueSpec [''a'', ''b''] None [CallExpr (Ident ''f'') []],
      TypeSpec ''T'' (Ident ''int''),
      ValueSpec [''x'', ''y'', ''z''] (Some (Ident ''int'')) [BasicLit tok_INT ''1'', BasicLit tok_INT ''2'']]
   \<and> Ident ''int'' \<noteq> Ident []
   \<and> 0 \<le> indentLevel NewScarConverter
   \<and> declLines
     [ValueSpec [''a'', ''b''] None [CallExpr (Ident ''f'') []],
      TypeSpec ''T'' (Ident ''int''),
      ValueSpec [''x'', ''y'', ''z''] (Some (Ident ''int'')) [BasicLit tok_INT ''1'', BasicLit tok_INT ''2'']]
     = [''a = f()'', ''int x = 1'', ''int y = 2'', ''int z'']
   \<and> convertStmt NewScarConverter (DeclStmt (GenDecl tok_VAR
     [ValueSpec [''a'', ''b''] None [CallExpr (Ident ''f'') []],
      TypeSpec ''T'' (Ident ''int''),
      ValueSpec [''x'', ''y'', ''z''] (Some (Ident ''int'')) [BasicLit tok_INT ''1'', BasicLit tok_INT ''2'']]))
     = Inr (NewScarConverter\<lparr>output :=
              ''a = f()'' @ [CHR 0x0A] @ ''int x = 1'' @ [CHR 0x0A] @ ''int y = 2'' @ [CHR 0x0A]
              @ ''int z'' @ [CHR 0x0A]\<rparr>)
   \<and> convertStmt NewScarConverter
        (DeclStmt (GenDecl tok_VAR [ValueSpec [''x''] (Some (Ident ''int'')) [BasicLit tok_INT ''5'']]))
       = Inr (NewScarConverter\<lparr>output := ''int x = 5'' @ [CHR 0x0A]\<rparr>)
   \<and> convertStmt NewScarConverter
        (DeclStmt (GenDecl tok_VAR [ValueSpec [''x''] (Some (Ident ''int'')) []]))
       = Inr (NewScarConverter\<lparr>output := ''int x'' @ [CHR 0x0A]\<rparr>)
   \<and> convertStmt NewScarConverter
        (DeclStmt (GenDecl tok_VAR [ValueSpec [''x''] None [BasicLit tok_INT ''5'']]))
       = Inr (NewScarConverter\<lparr>output := ''x = 5'' @ [CHR 0x0A]\<rparr>)
   \<and> convertStmt NewScarConverter (DeclStmt (GenDecl tok_VAR [ValueSpec [''x''] None []]))
       = Inr NewScarConverter"
  using local_declaration_lines
    [of "[ValueSpec [''a'', ''b''] None [CallExpr (Ident ''f'') []],
      TypeSpec ''T'' (Ident ''int''),
      ValueSpec [''x'', ''y'', ''z''] (Some (Ident ''int'')) [BasicLit tok_INT ''1'', BasicLit tok_INT ''2'']]"
        "Ident ''int''" NewScarConverter tok_VAR "''x''" "BasicLit tok_INT ''5''" "[]"]
  by (simp add: writeln_def indent_def Repeat_def NewScarConverter_def declLines_def
        valueSpecLines_def enumerate_eq_zip upt_rec)

text \<open>
  C10. An assignment whose left-hand and right-hand lists are not both of length one
  emits nothing: the state, with its output and its depth, is returned as it was.
\<close>

theorem multi_assign_emits_nothing:
  assumes "\<not> (length lhs = 1 \<and> length rhs = 1)"
  shows "convertStmt c (AssignStmt lhs tok rhs) = Inr c"
  using assms by (auto simp: convertAssignStmt_def)

theorem multi_assign_emits_nothing_witness:
  "convertStmt NewScarConverter
     (AssignStmt [Ident ''a'', Ident ''b''] tok_ASSIGN [Ident ''b'', Ident ''a''])
   = Inr NewScarConverter"
  using multi_assign_emits_nothing
    [of "[Ident ''a'', Ident ''b'']" "[Ident ''b'', Ident ''a'']" NewScarConverter tok_ASSIGN]
  by simp

end
